theory Spec2Isabelle
  imports Main "HOL-Library.Word" "HOL-Library.AList"
begin

unbundle bit_operations_syntax

section \<open>Bytes and errors\<close>

type_synonym byte = "8 word"
type_synonym bytes = "byte list"

text \<open>The errors of \<^verbatim>\<open>io.ReadFull\<close>, as \<^verbatim>\<open>encoding/binary.Read\<close> returns them.\<close>

datatype io_error = EOF | ErrUnexpectedEOF

section \<open>utils.go: int64ToBytes and bytesToInt64\<close>

text \<open>
  \<^verbatim>\<open>binary.LittleEndian.PutUint64\<close> stores \<^verbatim>\<open>byte(v)\<close>, \<^verbatim>\<open>byte(v >> 8)\<close>, ...,
  \<^verbatim>\<open>byte(v >> 56)\<close>; \<^verbatim>\<open>Uint64\<close> reads them back with shifts and ors. An \<^verbatim>\<open>int64\<close>
  is a 64-bit word (\<open>sint\<close> reads its value); the conversion to \<^verbatim>\<open>uint64\<close> keeps the bits.
\<close>

definition PutUint64 :: "64 word \<Rightarrow> bytes" where
  "PutUint64 v =
     [ucast v, ucast (drop_bit 8 v), ucast (drop_bit 16 v), ucast (drop_bit 24 v),
      ucast (drop_bit 32 v), ucast (drop_bit 40 v), ucast (drop_bit 48 v), ucast (drop_bit 56 v)]"

definition Uint64 :: "bytes \<Rightarrow> 64 word" where
  "Uint64 b =
     ucast (b ! 0) OR push_bit 8 (ucast (b ! 1)) OR push_bit 16 (ucast (b ! 2)) OR
     push_bit 24 (ucast (b ! 3)) OR push_bit 32 (ucast (b ! 4)) OR push_bit 40 (ucast (b ! 5)) OR
     push_bit 48 (ucast (b ! 6)) OR push_bit 56 (ucast (b ! 7))"

text \<open>
  \<^verbatim>\<open>binary.Write\<close> into a \<^verbatim>\<open>bytes.Buffer\<close> cannot fail for an \<^verbatim>\<open>int64\<close>, so the
  \<^verbatim>\<open>panic(err)\<close> of \<^verbatim>\<open>int64ToBytes\<close> is unreachable and the function is total.
\<close>

definition int64ToBytes :: "64 word \<Rightarrow> bytes" where
  "int64ToBytes i = PutUint64 i"

text \<open>
  \<^verbatim>\<open>binary.Read\<close> fills an 8-byte buffer with \<^verbatim>\<open>io.ReadFull\<close>: no byte at all is
  \<^verbatim>\<open>io.EOF\<close>, fewer than 8 is \<^verbatim>\<open>io.ErrUnexpectedEOF\<close>; \<^verbatim>\<open>bytesToInt64\<close> panics with
  that error (\<open>Inl\<close>). Bytes after the eighth are left unread.
\<close>

definition bytesToInt64 :: "bytes \<Rightarrow> io_error + 64 word" where
  "bytesToInt64 b =
     (if length b = 0 then Inl EOF
      else if length b < 8 then Inl ErrUnexpectedEOF
      else Inr (Uint64 (take 8 b)))"

section \<open>encoding/hex\<close>

text \<open>
  Go's \<^verbatim>\<open>hex.DecodeString\<close> accepts both cases of the letters, reports the first
  invalid character, and reports \<^verbatim>\<open>ErrLength\<close> for an odd number of characters;
  \<^verbatim>\<open>hex.EncodeToString\<close> writes lower case.
\<close>

datatype hex_error = ErrLength | InvalidByteError char

definition fromHexChar :: "char \<Rightarrow> byte option" where
  "fromHexChar c =
     (let n = (of_char c :: nat) in
      if 48 \<le> n \<and> n \<le> 57 then Some (of_nat (n - 48))
      else if 97 \<le> n \<and> n \<le> 102 then Some (of_nat (n - 97 + 10))
      else if 65 \<le> n \<and> n \<le> 70 then Some (of_nat (n - 65 + 10))
      else None)"

fun DecodeString :: "string \<Rightarrow> hex_error + bytes" where
  "DecodeString [] = Inr []"
| "DecodeString [c] =
     (case fromHexChar c of None \<Rightarrow> Inl (InvalidByteError c) | Some _ \<Rightarrow> Inl ErrLength)"
| "DecodeString (a # b # rest) =
     (case fromHexChar a of
        None \<Rightarrow> Inl (InvalidByteError a)
      | Some x \<Rightarrow>
          (case fromHexChar b of
             None \<Rightarrow> Inl (InvalidByteError b)
           | Some y \<Rightarrow>
               (case DecodeString rest of
                  Inl e \<Rightarrow> Inl e
                | Inr bs \<Rightarrow> Inr ((push_bit 4 x OR y) # bs))))"

definition hextable :: string where
  "hextable = ''0123456789abcdef''"

fun EncodeToString :: "bytes \<Rightarrow> string" where
  "EncodeToString [] = []"
| "EncodeToString (v # vs) =
     hextable ! unat (drop_bit 4 v) # hextable ! unat (v AND 15) # EncodeToString vs"

section \<open>The drop-box bucket (boltdb)\<close>

text \<open>
  The bucket maps keys to values. \<^verbatim>\<open>Bucket.Get\<close> returns nil for a missing key, and a
  nil slice and an empty one are both zero bytes on the wire: both are \<open>[]\<close>.
  \<^verbatim>\<open>Bucket.Put\<close> refuses an empty key, a key longer than 32768 bytes and a value longer
  than \<open>2^31 - 2\<close> bytes. \<^verbatim>\<open>DB.Update\<close> runs its function in one transaction: it rolls
  back when the function returns an error or the commit fails (an I/O error, here the
  flag \<open>commit_ok\<close> of the request), and commits every write together otherwise.
\<close>

type_synonym bucket = "bytes \<rightharpoonup> bytes"

datatype bolt_error = ErrKeyRequired | ErrKeyTooLarge | ErrValueTooLarge | ErrCommit

definition dropBoxIDSize :: nat where
  "dropBoxIDSize = 16"

definition bucket_Get :: "bucket \<Rightarrow> bytes \<Rightarrow> bytes" where
  "bucket_Get b k = (case b k of None \<Rightarrow> [] | Some v \<Rightarrow> v)"

definition bucket_Put :: "bucket \<Rightarrow> bytes \<Rightarrow> bytes \<Rightarrow> bolt_error + bucket" where
  "bucket_Put b k v =
     (if length k = 0 then Inl ErrKeyRequired
      else if length k > 32768 then Inl ErrKeyTooLarge
      else if length v > 2 ^ 31 - 2 then Inl ErrValueTooLarge
      else Inr (b(k \<mapsto> v)))"

definition db_Update ::
  "bool \<Rightarrow> bucket \<Rightarrow> (bucket \<Rightarrow> bolt_error + bucket) \<Rightarrow> bolt_error option \<times> bucket" where
  "db_Update commit_ok db f =
     (case f db of
        Inl e \<Rightarrow> (Some e, db)
      | Inr db' \<Rightarrow> if commit_ok then (None, db') else (Some ErrCommit, db))"

section \<open>drop\_boxes.go: the REST handlers\<close>

text \<open>
  What a handler writes to its \<^verbatim>\<open>http.ResponseWriter\<close>: either a status and a body
  of its own (\<open>Raw\<close>), or one of the helpers \<^verbatim>\<open>sendSuccess\<close>, \<^verbatim>\<open>sendBadReq\<close>,
  \<^verbatim>\<open>sendInternalErr\<close>, \<^verbatim>\<open>sendInvalidAccessToken\<close>, or the answer of the websocket
  upgrader (101 on success, 400 sent by the upgrader on a failed handshake). The
  helpers' message texts do not matter to any property here and are left out, as are
  the log lines.
\<close>

datatype response =
    Raw nat bytes
  | SendSuccess
  | SendBadReq
  | SendInternalErr
  | SendInvalidAccessToken
  | Upgraded
  | UpgradeRefused

text \<open>
  Modelled from the spec: the helpers \<^verbatim>\<open>sendSuccess\<close>, \<^verbatim>\<open>sendBadReq\<close>,
  \<^verbatim>\<open>sendInternalErr\<close> and \<^verbatim>\<open>sendInvalidAccessToken\<close> are called by these sources but
  defined elsewhere. The specification's table of the REST surface gives their status
  codes: 200, 400 (bad id, body or part), 500 and 401.
\<close>

fun status_code :: "response \<Rightarrow> nat" where
  "status_code (Raw code _) = code"
| "status_code SendSuccess = 200"
| "status_code SendBadReq = 400"
| "status_code SendInternalErr = 500"
| "status_code SendInvalidAccessToken = 401"
| "status_code Upgraded = 101"
| "status_code UpgradeRefused = 400"

text \<open>
  What a handler does besides answering: the transactions it opens on the store
  (\<^verbatim>\<open>kvdb().View\<close>, \<^verbatim>\<open>kvdb().Update\<close>) and the packages it publishes on the bus.
\<close>

datatype effect = View | Update | Publish bytes string

type_synonym outcome = "response \<times> bucket \<times> effect list"

definition parseDropBoxID :: "string \<Rightarrow> response + (bytes \<times> string)" where
  "parseDropBoxID boxIDStr =
     (case DecodeString boxIDStr of
        Inl _ \<Rightarrow> Inl SendBadReq
      | Inr boxID \<Rightarrow>
          if length boxID \<noteq> dropBoxIDSize then Inl SendBadReq
          else Inr (boxID, boxIDStr))"

definition pickUpPackage :: "bucket \<Rightarrow> bytes \<Rightarrow> bytes" where
  "pickUpPackage db boxID = bucket_Get db boxID"

text \<open>GET /drop-boxes/{box\_id}.\<close>

definition pickUpPackageHandler :: "bucket \<Rightarrow> string \<Rightarrow> outcome" where
  "pickUpPackageHandler db box_id =
     (case parseDropBoxID box_id of
        Inl r \<Rightarrow> (r, db, [])
      | Inr (boxID, _) \<Rightarrow> (Raw 200 (pickUpPackage db boxID), db, [View]))"

text \<open>
  PUT /drop-boxes/{box\_id}. The body is what \<^verbatim>\<open>ioutil.ReadAll(r.Body)\<close> returns: the
  bytes or a read error.
\<close>

definition dropPackageHandler :: "bool \<Rightarrow> bucket \<Rightarrow> string \<Rightarrow> io_error + bytes \<Rightarrow> outcome" where
  "dropPackageHandler commit_ok db box_id body =
     (case parseDropBoxID box_id of
        Inl r \<Rightarrow> (r, db, [])
      | Inr (boxID, hexBoxID) \<Rightarrow>
          (case body of
             Inl _ \<Rightarrow> (SendBadReq, db, [])
           | Inr pkg \<Rightarrow>
               (case db_Update commit_ok db (\<lambda>b. bucket_Put b boxID pkg) of
                  (Some _, db') \<Rightarrow> (SendInternalErr, db', [Update])
                | (None, db') \<Rightarrow> (SendSuccess, db', [Update, Publish pkg hexBoxID]))))"

text \<open>
  POST /drop-boxes/send. The multipart body is the list of what \<^verbatim>\<open>rdr.NextPart()\<close>
  yields before \<^verbatim>\<open>io.EOF\<close>: a part with its form name and the result of reading its
  data, or an error (\<open>BadPart\<close>). The request as a whole is \<open>None\<close> when
  \<^verbatim>\<open>r.MultipartReader()\<close> fails.
\<close>

datatype part = Part string "io_error + bytes" | BadPart

text \<open>
  The Go map \<^verbatim>\<open>pkgs\<close> is an association list with one entry per key. The loop stops
  at the first part it cannot read or whose name is not a 16-byte hex id.
\<close>

fun readParts :: "part list \<Rightarrow> (string \<times> bytes) list \<Rightarrow> response + (string \<times> bytes) list" where
  "readParts [] pkgs = Inr pkgs"
| "readParts (BadPart # ps) pkgs = Inl SendBadReq"
| "readParts (Part hexBoxID d # ps) pkgs =
     (case d of
        Inl _ \<Rightarrow> Inl SendBadReq
      | Inr data \<Rightarrow>
          (case DecodeString hexBoxID of
             Inl _ \<Rightarrow> Inl SendBadReq
           | Inr boxID \<Rightarrow>
               if length boxID \<noteq> dropBoxIDSize then Inl SendBadReq
               else readParts ps (AList.update hexBoxID data pkgs)))"

text \<open>
  \<^verbatim>\<open>for k, v := range m\<close> visits the entries of a Go map in an order the language
  leaves open. The order is a parameter: a ranking of the keys, by which the entries
  are sorted (stably, so that every ranking gives a permutation of the entries, and
  every order of visiting distinct keys comes from some ranking).
\<close>

definition range_map :: "(string \<Rightarrow> nat) \<Rightarrow> (string \<times> bytes) list \<Rightarrow> (string \<times> bytes) list" where
  "range_map rank m = sort_key (\<lambda>e. rank (fst e)) m"

text \<open>
  \<^verbatim>\<open>boxID, _ := hex.DecodeString(hexBoxID)\<close> inside the transaction drops the error;
  the keys of \<^verbatim>\<open>pkgs\<close> have all been decoded before, so the error branch (a nil id)
  is never taken.
\<close>

definition decodeUnchecked :: "string \<Rightarrow> bytes" where
  "decodeUnchecked h = (case DecodeString h of Inl _ \<Rightarrow> [] | Inr b \<Rightarrow> b)"

fun putAll :: "bucket \<Rightarrow> (string \<times> bytes) list \<Rightarrow> bolt_error + bucket" where
  "putAll b [] = Inr b"
| "putAll b ((hexBoxID, pkg) # rest) =
     (case bucket_Put b (decodeUnchecked hexBoxID) pkg of
        Inl e \<Rightarrow> Inl e
      | Inr b' \<Rightarrow> putAll b' rest)"

definition sendMultiplePackagesHandler ::
  "(string \<Rightarrow> nat) \<Rightarrow> (string \<Rightarrow> nat) \<Rightarrow> bool \<Rightarrow> bucket \<Rightarrow> part list option \<Rightarrow> outcome" where
  "sendMultiplePackagesHandler rank rank' commit_ok db multipart =
     (case multipart of
        None \<Rightarrow> (SendBadReq, db, [])
      | Some parts \<Rightarrow>
          (case readParts parts [] of
             Inl r \<Rightarrow> (r, db, [])
           | Inr pkgs \<Rightarrow>
               (case db_Update commit_ok db (\<lambda>b. putAll b (range_map rank pkgs)) of
                  (Some _, db') \<Rightarrow> (SendBadReq, db', [Update])
                | (None, db') \<Rightarrow>
                    (SendSuccess, db',
                     Update # map (\<lambda>(hexBoxID, pkg). Publish pkg hexBoxID) (range_map rank' pkgs)))))"

text \<open>
  A request to the REST surface of the drop boxes, with what its environment decides:
  whether the commit succeeds, and the orders in which the two \<^verbatim>\<open>range\<close> loops of the
  multipart handler visit the map.
\<close>

datatype request =
    GET string
  | PUT bool string "io_error + bytes"
  | POST "string \<Rightarrow> nat" "string \<Rightarrow> nat" bool "part list option"

fun serve :: "request \<Rightarrow> bucket \<Rightarrow> outcome" where
  "serve (GET box_id) db = pickUpPackageHandler db box_id"
| "serve (PUT commit_ok box_id body) db = dropPackageHandler commit_ok db box_id body"
| "serve (POST rank rank' commit_ok multipart) db =
     sendMultiplePackagesHandler rank rank' commit_ok db multipart"

text \<open>The requests that name box \<open>B\<close> as a target of a write.\<close>

fun names_box :: "bytes \<Rightarrow> part \<Rightarrow> bool" where
  "names_box B (Part h _) = (DecodeString h = Inr B)"
| "names_box B BadPart = False"

fun writes_to :: "bytes \<Rightarrow> request \<Rightarrow> bool" where
  "writes_to B (GET _) = False"
| "writes_to B (PUT _ box_id _) = (DecodeString box_id = Inr B)"
| "writes_to B (POST _ _ _ multipart) =
     (case multipart of None \<Rightarrow> False | Some parts \<Rightarrow> list_ex (names_box B) parts)"

text \<open>
  A run of requests, one after the other on the store, in which no write to box \<open>B\<close>
  succeeds (answers 200).
\<close>

fun no_put_to :: "bytes \<Rightarrow> request list \<Rightarrow> bucket \<Rightarrow> bool" where
  "no_put_to B [] db = True"
| "no_put_to B (r # rs) db =
     (case serve r db of
        (resp, db', _) \<Rightarrow>
          \<not> (writes_to B r \<and> status_code resp = 200) \<and> no_put_to B rs db')"

fun serve_all :: "request list \<Rightarrow> bucket \<Rightarrow> bucket" where
  "serve_all [] db = db"
| "serve_all (r # rs) db = (case serve r db of (_, db', _) \<Rightarrow> serve_all rs db')"

section \<open>Go channels and goroutine steps\<close>

text \<open>
  A channel of \<^verbatim>\<open>[]byte\<close>: its queue, its capacity and whether it has been closed.
  Channels live in a heap indexed by numbers; a number with no channel is a nil channel.
  A step of a goroutine either is taken (\<open>Ok\<close>), cannot be taken now because the
  goroutine waits or is gone (\<open>Blocked\<close>), or panics (\<open>Panic\<close>: a send on a closed
  channel, a second \<^verbatim>\<open>close\<close>), which ends the process.
\<close>

record chan =
  buf :: "bytes list"
  cap :: nat
  chan_closed :: bool

type_synonym heap = "nat \<rightharpoonup> chan"

datatype 'a go = Blocked | Panic | Ok 'a

definition chan_send :: "nat \<Rightarrow> bytes \<Rightarrow> heap \<Rightarrow> heap go" where
  "chan_send c x h =
     (case h c of
        None \<Rightarrow> Blocked
      | Some ch \<Rightarrow>
          if chan_closed ch then Panic
          else if length (buf ch) < cap ch then Ok (h(c \<mapsto> ch\<lparr>buf := buf ch @ [x]\<rparr>))
          else Blocked)"

text \<open>A receive yields the head of the queue, or nil (\<open>None\<close>) once the channel is closed and drained.\<close>

definition chan_recv :: "nat \<Rightarrow> heap \<Rightarrow> (bytes option \<times> heap) go" where
  "chan_recv c h =
     (case h c of
        None \<Rightarrow> Blocked
      | Some ch \<Rightarrow>
          (case buf ch of
             x # xs \<Rightarrow> Ok (Some x, h(c \<mapsto> ch\<lparr>buf := xs\<rparr>))
           | [] \<Rightarrow> if chan_closed ch then Ok (None, h) else Blocked))"

definition chan_close :: "nat \<Rightarrow> heap \<Rightarrow> heap go" where
  "chan_close c h =
     (case h c of
        None \<Rightarrow> Panic
      | Some ch \<Rightarrow> if chan_closed ch then Panic else Ok (h(c \<mapsto> ch\<lparr>chan_closed := True\<rparr>)))"

section \<open>The pub/sub bus\<close>

text \<open>
  Modelled from the spec: the package \<^verbatim>\<open>pubsub\<close> is imported by these sources but its
  code is not among them. Section 4.A of the specification: \<^verbatim>\<open>Sub\<close> creates an
  independent subscriber with a bounded FIFO queue; \<^verbatim>\<open>Unsub\<close> removes the subscriber
  from the topic and closes its queue, and is a no-op for a handle that is not
  subscribed; \<^verbatim>\<open>Pub\<close> enqueues the item on every current subscriber of the topic and
  blocks while a queue is full (the source's policy). A bus is the table from topics to
  the channels subscribed, over the heap of channels; the key type is a parameter.
\<close>

type_synonym 'k bus = "'k \<Rightarrow> nat list"

definition Sub :: "'k \<Rightarrow> nat \<Rightarrow> nat \<Rightarrow> 'k bus \<times> heap \<Rightarrow> 'k bus \<times> heap" where
  "Sub topic capacity c bh =
     (case bh of (tab, h) \<Rightarrow>
        (tab(topic := tab topic @ [c]),
         h(c \<mapsto> \<lparr>buf = [], cap = capacity, chan_closed = False\<rparr>)))"

definition Unsub :: "nat \<Rightarrow> 'k \<Rightarrow> 'k bus \<times> heap \<Rightarrow> 'k bus \<times> heap" where
  "Unsub c topic bh =
     (case bh of (tab, h) \<Rightarrow>
        if c \<in> set (tab topic) then
          (tab(topic := removeAll c (tab topic)),
           (case h c of None \<Rightarrow> h | Some ch \<Rightarrow> h(c \<mapsto> ch\<lparr>chan_closed := True\<rparr>)))
        else (tab, h))"

fun send_all :: "nat list \<Rightarrow> bytes \<Rightarrow> heap \<Rightarrow> heap go" where
  "send_all [] item h = Ok h"
| "send_all (c # cs) item h =
     (case chan_send c item h of
        Ok h' \<Rightarrow> send_all cs item h'
      | Blocked \<Rightarrow> Blocked
      | Panic \<Rightarrow> Panic)"

definition Pub :: "bytes \<Rightarrow> 'k \<Rightarrow> 'k bus \<times> heap \<Rightarrow> heap go" where
  "Pub item topic bh = (case bh of (tab, h) \<Rightarrow> send_all (tab topic) item h)"

section \<open>What the socket sessions share\<close>

text \<open>
  The globals of the process: the heap of channels with the next free number, the
  capacity the bus gives a subscription queue, the two buses \<^verbatim>\<open>dropBoxPubSub\<close>
  (topics are hex ids) and \<^verbatim>\<open>messagesPubSub\<close> (topics are user ids), and the store.
\<close>

record world =
  heap :: heap
  next_chan :: nat
  sub_cap :: nat
  dropBoxPubSub :: "string bus"
  messagesPubSub :: "64 word bus"
  store :: bucket
  store_down :: bool

definition socketCmdNop :: byte where "socketCmdNop = 0"
definition socketCmdWatch :: byte where "socketCmdWatch = 1"
definition socketCmdIgnore :: byte where "socketCmdIgnore = 2"

text \<open>What \<^verbatim>\<open>conn.ReadMessage()\<close> returns to the reader of a session.\<close>

datatype ws_read = Binary bytes | NonBinary | ReadError

datatype kvs_error = ErrStore

text \<open>
  Modelled from the spec: \<^verbatim>\<open>kvs.PickUpPackage\<close> is called by \<^verbatim>\<open>socketServer.watchBox\<close>
  but defined elsewhere. Section 4.B: it returns the current package of the box or the
  empty marker, never removes it, and fails only when the store fails.
\<close>

definition kvs_PickUpPackage :: "'a world_scheme \<Rightarrow> bytes \<Rightarrow> kvs_error + bytes" where
  "kvs_PickUpPackage w boxID =
     (if store_down w then Inl ErrStore else Inr (bucket_Get (store w) boxID))"

section \<open>The socketServer session\<close>

text \<open>
  A forwarder is the goroutine that \<^verbatim>\<open>watchBox\<close> starts for one subscription: it waits
  in its \<^verbatim>\<open>select\<close>, or holds a frame it is sending to \<^verbatim>\<open>ss.pkgs\<close>, or has returned.
\<close>

datatype fwd_pc = AtSelect | Sending bytes | Exited

record forwarder =
  f_hexID :: string
  f_boxID :: bytes
  f_sub :: nat
  f_pc :: fwd_pc

text \<open>
  The fields of the struct (the channels by their numbers, \<open>closed\<close> by whether it has
  been closed), which goroutines of the session run, and the frames written to the
  connection so far.
\<close>

record socketServer = world +
  closed :: bool
  messages :: nat
  pkgs :: nat
  pkgSubs :: "string \<rightharpoonup> nat"
  userID :: "64 word"
  reading :: bool
  writing :: bool
  forwarders :: "forwarder list"
  sent :: "bytes list"

definition newSocketServer :: "world \<Rightarrow> 64 word \<Rightarrow> socketServer" where
  "newSocketServer w uid =
     \<lparr>heap = (heap w)(next_chan w \<mapsto> \<lparr>buf = [], cap = 5, chan_closed = False\<rparr>),
      next_chan = Suc (next_chan w),
      sub_cap = sub_cap w,
      dropBoxPubSub = dropBoxPubSub w,
      messagesPubSub = messagesPubSub w,
      store = store w,
      store_down = store_down w,
      closed = False,
      messages = 0,
      pkgs = next_chan w,
      pkgSubs = Map.empty,
      userID = uid,
      reading = False,
      writing = False,
      forwarders = [],
      sent = []\<rparr>"

text \<open>
  \<^verbatim>\<open>start\<close> subscribes to the user's messages and launches \<^verbatim>\<open>readConn\<close> and
  \<^verbatim>\<open>writeConn\<close>. It launches nothing else: the method \<^verbatim>\<open>stop\<close> of the source, which
  would unsubscribe every box and the messages once \<^verbatim>\<open>ss.closed\<close> is closed, has no
  caller.
\<close>

definition start :: "socketServer \<Rightarrow> socketServer" where
  "start ss =
     (case Sub (userID ss) (sub_cap ss) (next_chan ss) (messagesPubSub ss, heap ss) of
        (tab, h) \<Rightarrow>
          ss\<lparr>heap := h, next_chan := Suc (next_chan ss), messagesPubSub := tab,
             messages := next_chan ss, reading := True, writing := True\<rparr>)"

definition watchBox :: "bytes \<Rightarrow> socketServer \<Rightarrow> socketServer go" where
  "watchBox boxID ss =
     (if length boxID \<noteq> dropBoxIDSize then Ok ss
      else
        let hexID = EncodeToString boxID in
        if pkgSubs ss hexID \<noteq> None then Ok ss
        else
          let sub = next_chan ss;
              tmp = (case kvs_PickUpPackage ss boxID of Inl _ \<Rightarrow> [] | Inr p \<Rightarrow> p)
          in (case Sub hexID (sub_cap ss) sub (dropBoxPubSub ss, heap ss) of
                (tab, h) \<Rightarrow>
                  (case (if length tmp > 0 then chan_send sub tmp h else Ok h) of
                     Blocked \<Rightarrow> Blocked
                   | Panic \<Rightarrow> Panic
                   | Ok h' \<Rightarrow>
                       Ok (ss\<lparr>heap := h', next_chan := Suc sub, dropBoxPubSub := tab,
                              pkgSubs := (pkgSubs ss)(hexID \<mapsto> sub),
                              forwarders := forwarders ss @
                                [\<lparr>f_hexID = hexID, f_boxID = boxID, f_sub = sub,
                                  f_pc = AtSelect\<rparr>]\<rparr>))))"

definition ignoreBox :: "bytes \<Rightarrow> socketServer \<Rightarrow> socketServer" where
  "ignoreBox boxID ss =
     (let hexID = EncodeToString boxID in
      case pkgSubs ss hexID of
        None \<Rightarrow> ss
      | Some sub \<Rightarrow>
          (case Unsub sub hexID (dropBoxPubSub ss, heap ss) of
             (tab, h) \<Rightarrow>
               ss\<lparr>heap := h, dropBoxPubSub := tab, pkgSubs := (pkgSubs ss)(hexID := None)\<rparr>))"

text \<open>One turn of the loop of \<^verbatim>\<open>readConn\<close>, on what \<^verbatim>\<open>ReadMessage\<close> returned.\<close>

definition readConn :: "ws_read \<Rightarrow> socketServer \<Rightarrow> socketServer go" where
  "readConn m ss =
     (if \<not> reading ss then Blocked
      else
        case m of
          ReadError \<Rightarrow> Ok (ss\<lparr>reading := False, closed := True\<rparr>)
        | NonBinary \<Rightarrow> Ok (ss\<lparr>reading := False, closed := True\<rparr>)
        | Binary b \<Rightarrow>
            (case b of
               [] \<Rightarrow> Ok ss
             | c # rest \<Rightarrow>
                 if c = socketCmdNop then Ok ss
                 else if c = socketCmdWatch then watchBox rest ss
                 else if c = socketCmdIgnore then Ok (ignoreBox rest ss)
                 else Ok ss))"

text \<open>
  The three cases of the \<^verbatim>\<open>select\<close> of \<^verbatim>\<open>writeConn\<close>; \<open>write_ok\<close> is whether
  \<^verbatim>\<open>conn.WriteMessage\<close> succeeds.
\<close>

definition writeConn_recv :: "nat \<Rightarrow> bool \<Rightarrow> socketServer \<Rightarrow> socketServer go" where
  "writeConn_recv c write_ok ss =
     (if \<not> writing ss then Blocked
      else
        case chan_recv c (heap ss) of
          Blocked \<Rightarrow> Blocked
        | Panic \<Rightarrow> Panic
        | Ok (None, h) \<Rightarrow> Ok (ss\<lparr>writing := False\<rparr>)
        | Ok (Some msg, h) \<Rightarrow>
            if write_ok then Ok (ss\<lparr>heap := h, sent := sent ss @ [msg]\<rparr>)
            else Ok (ss\<lparr>heap := h, writing := False\<rparr>))"

definition writeConn_closed :: "socketServer \<Rightarrow> socketServer go" where
  "writeConn_closed ss =
     (if writing ss \<and> closed ss then Ok (ss\<lparr>writing := False\<rparr>) else Blocked)"

text \<open>The goroutine of \<^verbatim>\<open>watchBox\<close>: the two cases of its \<^verbatim>\<open>select\<close>, and its send.\<close>

definition set_pc :: "nat \<Rightarrow> fwd_pc \<Rightarrow> forwarder list \<Rightarrow> forwarder list" where
  "set_pc i pc fs = fs[i := (fs ! i)\<lparr>f_pc := pc\<rparr>]"

definition forwarder_closed :: "nat \<Rightarrow> socketServer \<Rightarrow> socketServer go" where
  "forwarder_closed i ss =
     (if i < length (forwarders ss) \<and> f_pc (forwarders ss ! i) = AtSelect \<and> closed ss
      then Ok (ss\<lparr>forwarders := set_pc i Exited (forwarders ss)\<rparr>)
      else Blocked)"

definition forwarder_recv :: "nat \<Rightarrow> socketServer \<Rightarrow> socketServer go" where
  "forwarder_recv i ss =
     (if i < length (forwarders ss) \<and> f_pc (forwarders ss ! i) = AtSelect then
        (case chan_recv (f_sub (forwarders ss ! i)) (heap ss) of
           Blocked \<Rightarrow> Blocked
         | Panic \<Rightarrow> Panic
         | Ok (None, h) \<Rightarrow>
             (case chan_close (pkgs ss) h of
                Blocked \<Rightarrow> Blocked
              | Panic \<Rightarrow> Panic
              | Ok h' \<Rightarrow> Ok (ss\<lparr>heap := h', forwarders := set_pc i Exited (forwarders ss)\<rparr>))
         | Ok (Some pkg, h) \<Rightarrow>
             Ok (ss\<lparr>heap := h,
                    forwarders :=
                      set_pc i (Sending (socketCmdWatch # f_boxID (forwarders ss ! i) @ pkg))
                        (forwarders ss)\<rparr>))
      else Blocked)"

definition forwarder_send :: "nat \<Rightarrow> socketServer \<Rightarrow> socketServer go" where
  "forwarder_send i ss =
     (if i < length (forwarders ss) then
        (case f_pc (forwarders ss ! i) of
           Sending b \<Rightarrow>
             (case chan_send (pkgs ss) b (heap ss) of
                Blocked \<Rightarrow> Blocked
              | Panic \<Rightarrow> Panic
              | Ok h \<Rightarrow> Ok (ss\<lparr>heap := h, forwarders := set_pc i AtSelect (forwarders ss)\<rparr>))
         | _ \<Rightarrow> Blocked)
      else Blocked)"

text \<open>
  The steps of a session and of its surroundings: a turn of the reader, a case of the
  writer's or of a forwarder's \<^verbatim>\<open>select\<close>, a forwarder's send, and from outside a
  publication on a box or to a user (by the REST handlers, after their write) and a
  change of the store. A run is a list of such steps, in the order the scheduler takes
  them; it stops at the first step that blocks or panics. A turn of the reader is one
  step: only the reader touches the subscription map, and the queue it fills in
  \<^verbatim>\<open>watchBox\<close> is the one it has just created.
\<close>

datatype event =
    Read ws_read
  | WriteMessages bool
  | WritePkgs bool
  | WriterClosed
  | FwdClosed nat
  | FwdRecv nat
  | FwdSend nat
  | PubBox bytes string
  | PubUser bytes "64 word"
  | StorePut bytes bytes

definition step :: "event \<Rightarrow> socketServer \<Rightarrow> socketServer go" where
  "step e ss =
     (case e of
        Read m \<Rightarrow> readConn m ss
      | WriteMessages ok \<Rightarrow> writeConn_recv (messages ss) ok ss
      | WritePkgs ok \<Rightarrow> writeConn_recv (pkgs ss) ok ss
      | WriterClosed \<Rightarrow> writeConn_closed ss
      | FwdClosed i \<Rightarrow> forwarder_closed i ss
      | FwdRecv i \<Rightarrow> forwarder_recv i ss
      | FwdSend i \<Rightarrow> forwarder_send i ss
      | PubBox pkg topic \<Rightarrow>
          (case Pub pkg topic (dropBoxPubSub ss, heap ss) of
             Blocked \<Rightarrow> Blocked | Panic \<Rightarrow> Panic | Ok h \<Rightarrow> Ok (ss\<lparr>heap := h\<rparr>))
      | PubUser msg uid \<Rightarrow>
          (case Pub msg uid (messagesPubSub ss, heap ss) of
             Blocked \<Rightarrow> Blocked | Panic \<Rightarrow> Panic | Ok h \<Rightarrow> Ok (ss\<lparr>heap := h\<rparr>))
      | StorePut k v \<Rightarrow> Ok (ss\<lparr>store := (store ss)(k \<mapsto> v)\<rparr>))"

fun exec :: "event list \<Rightarrow> socketServer \<Rightarrow> socketServer go" where
  "exec [] ss = Ok ss"
| "exec (e # es) ss =
     (case step e ss of
        Ok ss' \<Rightarrow> exec es ss'
      | Blocked \<Rightarrow> Blocked
      | Panic \<Rightarrow> Panic)"

section \<open>The packageListener session\<close>

text \<open>
  \<^verbatim>\<open>subscriptionReader\<close>: the subscription channel and whether the reader's own
  \<^verbatim>\<open>closed\<close> channel has been closed. The struct \<^verbatim>\<open>packageListener\<close>: \<^verbatim>\<open>pl.pkgs\<close> is
  unbuffered, so it never holds a frame and its state is whether it has been closed;
  the map \<^verbatim>\<open>subs\<close> is an association list with one entry per key; the wait group is
  its counter. Besides the fields: which goroutines run (\<^verbatim>\<open>read\<close>, \<^verbatim>\<open>write\<close>, the forwarders,
  and \<^verbatim>\<open>stop\<close> with the point it has reached), the frames written, and whether the
  connection has been closed by \<^verbatim>\<open>stop\<close>.
\<close>

record subscriptionReader =
  sr_sub :: nat
  sr_closed :: bool

datatype stop_pc = AwaitClosed | AwaitGroup | Finished

record packageListener = world +
  pl_closed :: bool
  pl_pkgs_closed :: bool
  pl_subs :: "(string \<times> subscriptionReader) list"
  pl_waitGroup :: nat
  pl_reading :: bool
  pl_writing :: bool
  pl_stopper :: stop_pc
  pl_forwarders :: "forwarder list"
  pl_sent :: "bytes list"
  pl_conn_closed :: bool

definition clientCmdNop :: byte where "clientCmdNop = 0"
definition clientCmdWatch :: byte where "clientCmdWatch = 1"
definition clientCmdIgnore :: byte where "clientCmdIgnore = 2"

text \<open>\<^verbatim>\<open>newPackageListener\<close> followed by \<^verbatim>\<open>start\<close>, which launches \<^verbatim>\<open>read\<close>, \<^verbatim>\<open>write\<close> and \<^verbatim>\<open>stop\<close>.\<close>

definition newPackageListener :: "world \<Rightarrow> packageListener" where
  "newPackageListener w =
     \<lparr>heap = heap w, next_chan = next_chan w, sub_cap = sub_cap w,
      dropBoxPubSub = dropBoxPubSub w, messagesPubSub = messagesPubSub w,
      store = store w, store_down = store_down w,
      pl_closed = False, pl_pkgs_closed = False, pl_subs = [], pl_waitGroup = 0,
      pl_reading = False, pl_writing = False, pl_stopper = Finished,
      pl_forwarders = [], pl_sent = [], pl_conn_closed = False\<rparr>"

definition pl_start :: "packageListener \<Rightarrow> packageListener" where
  "pl_start pl = pl\<lparr>pl_reading := True, pl_writing := True, pl_stopper := AwaitClosed\<rparr>"

definition pl_ignore :: "bytes \<Rightarrow> packageListener \<Rightarrow> packageListener go" where
  "pl_ignore boxID pl =
     (if length boxID \<noteq> dropBoxIDSize then Ok pl
      else
        let hexID = EncodeToString boxID in
        case map_of (pl_subs pl) hexID of
          None \<Rightarrow> Ok pl
        | Some sr \<Rightarrow>
            if sr_closed sr then Panic
            else Ok (pl\<lparr>pl_subs := AList.delete hexID (pl_subs pl)\<rparr>))"

definition pl_watch :: "bytes \<Rightarrow> packageListener \<Rightarrow> packageListener go" where
  "pl_watch boxID pl =
     (if length boxID \<noteq> dropBoxIDSize then Ok pl
      else
        let hexID = EncodeToString boxID in
        if map_of (pl_subs pl) hexID \<noteq> None then Ok pl
        else
          let sub = next_chan pl;
              tmp = pickUpPackage (store pl) boxID
          in (case Sub hexID (sub_cap pl) sub (dropBoxPubSub pl, heap pl) of
                (tab, h) \<Rightarrow>
                  (case (if length tmp > 0 then chan_send sub tmp h else Ok h) of
                     Blocked \<Rightarrow> Blocked
                   | Panic \<Rightarrow> Panic
                   | Ok h' \<Rightarrow>
                       Ok (pl\<lparr>heap := h', next_chan := Suc sub, dropBoxPubSub := tab,
                              pl_subs := AList.update hexID
                                \<lparr>sr_sub = sub, sr_closed = False\<rparr> (pl_subs pl),
                              pl_waitGroup := Suc (pl_waitGroup pl),
                              pl_forwarders := pl_forwarders pl @
                                [\<lparr>f_hexID = hexID, f_boxID = boxID, f_sub = sub,
                                  f_pc = AtSelect\<rparr>]\<rparr>))))"

text \<open>One turn of the loop of \<^verbatim>\<open>read\<close>; leaving the loop closes \<^verbatim>\<open>pl.closed\<close>.\<close>

definition pl_read :: "ws_read \<Rightarrow> packageListener \<Rightarrow> packageListener go" where
  "pl_read m pl =
     (if \<not> pl_reading pl then Blocked
      else
        case m of
          ReadError \<Rightarrow> Ok (pl\<lparr>pl_reading := False, pl_closed := True\<rparr>)
        | NonBinary \<Rightarrow> Ok (pl\<lparr>pl_reading := False, pl_closed := True\<rparr>)
        | Binary b \<Rightarrow>
            (case b of
               [] \<Rightarrow> Ok pl
             | c # rest \<Rightarrow>
                 if c = clientCmdNop then Ok pl
                 else if c = clientCmdWatch then pl_watch rest pl
                 else if c = clientCmdIgnore then pl_ignore rest pl
                 else Ok pl))"

text \<open>
  A forwarder that returns runs its deferred calls: \<^verbatim>\<open>dropBoxPubSub.Unsub(sub, topic)\<close>,
  then \<^verbatim>\<open>pl.waitGroup.Done()\<close>.
\<close>

definition pl_forwarder_return :: "nat \<Rightarrow> heap \<Rightarrow> packageListener \<Rightarrow> packageListener" where
  "pl_forwarder_return i h pl =
     (case Unsub (f_sub (pl_forwarders pl ! i)) (f_hexID (pl_forwarders pl ! i))
             (dropBoxPubSub pl, h) of
        (tab, h') \<Rightarrow>
          pl\<lparr>heap := h', dropBoxPubSub := tab, pl_waitGroup := pl_waitGroup pl - 1,
             pl_forwarders := set_pc i Exited (pl_forwarders pl)\<rparr>)"

definition pl_forwarder_closed :: "nat \<Rightarrow> packageListener \<Rightarrow> packageListener go" where
  "pl_forwarder_closed i pl =
     (if i < length (pl_forwarders pl) \<and> f_pc (pl_forwarders pl ! i) = AtSelect \<and> pl_closed pl
      then Ok (pl_forwarder_return i (heap pl) pl)
      else Blocked)"

definition pl_forwarder_recv :: "nat \<Rightarrow> packageListener \<Rightarrow> packageListener go" where
  "pl_forwarder_recv i pl =
     (if i < length (pl_forwarders pl) \<and> f_pc (pl_forwarders pl ! i) = AtSelect then
        (case chan_recv (f_sub (pl_forwarders pl ! i)) (heap pl) of
           Blocked \<Rightarrow> Blocked
         | Panic \<Rightarrow> Panic
         | Ok (None, h) \<Rightarrow> Ok (pl_forwarder_return i h pl)
         | Ok (Some pkg, h) \<Rightarrow>
             Ok (pl\<lparr>heap := h,
                    pl_forwarders :=
                      set_pc i (Sending (1 # f_boxID (pl_forwarders pl ! i) @ pkg))
                        (pl_forwarders pl)\<rparr>))
      else Blocked)"

text \<open>
  The send \<^verbatim>\<open>pl.pkgs <- bytes\<close> meets the receive of \<^verbatim>\<open>write\<close>, which writes the frame
  at once; a failed write ends \<^verbatim>\<open>write\<close>. Without a writer the send waits for ever.
\<close>

definition pl_forwarder_send :: "nat \<Rightarrow> bool \<Rightarrow> packageListener \<Rightarrow> packageListener go" where
  "pl_forwarder_send i write_ok pl =
     (if i < length (pl_forwarders pl) then
        (case f_pc (pl_forwarders pl ! i) of
           Sending b \<Rightarrow>
             if pl_pkgs_closed pl then Panic
             else if \<not> pl_writing pl then Blocked
             else if write_ok then
               Ok (pl\<lparr>pl_sent := pl_sent pl @ [b],
                      pl_forwarders := set_pc i AtSelect (pl_forwarders pl)\<rparr>)
             else
               Ok (pl\<lparr>pl_writing := False,
                      pl_forwarders := set_pc i AtSelect (pl_forwarders pl)\<rparr>)
         | _ \<Rightarrow> Blocked)
      else Blocked)"

text \<open>\<^verbatim>\<open>write\<close> leaves its \<^verbatim>\<open>range\<close> loop when \<^verbatim>\<open>pl.pkgs\<close> is closed.\<close>

definition pl_write_end :: "packageListener \<Rightarrow> packageListener go" where
  "pl_write_end pl =
     (if pl_writing pl \<and> pl_pkgs_closed pl then Ok (pl\<lparr>pl_writing := False\<rparr>) else Blocked)"

text \<open>
  \<^verbatim>\<open>stop\<close>: once \<^verbatim>\<open>pl.closed\<close> is closed it closes the \<^verbatim>\<open>closed\<close> channel of every
  entry of \<^verbatim>\<open>subs\<close> (a panic if one is closed already), waits for the wait group, then
  closes the connection and \<^verbatim>\<open>pl.pkgs\<close>.
\<close>

definition pl_stop_wake :: "packageListener \<Rightarrow> packageListener go" where
  "pl_stop_wake pl =
     (if pl_stopper pl = AwaitClosed \<and> pl_closed pl then
        (if list_ex (\<lambda>e. sr_closed (snd e)) (pl_subs pl) then Panic
         else Ok (pl\<lparr>pl_subs := map (\<lambda>e. (fst e, (snd e)\<lparr>sr_closed := True\<rparr>)) (pl_subs pl),
                    pl_stopper := AwaitGroup\<rparr>))
      else Blocked)"

definition pl_stop_finish :: "packageListener \<Rightarrow> packageListener go" where
  "pl_stop_finish pl =
     (if pl_stopper pl = AwaitGroup \<and> pl_waitGroup pl = 0 then
        (if pl_pkgs_closed pl then Panic
         else Ok (pl\<lparr>pl_conn_closed := True, pl_pkgs_closed := True, pl_stopper := Finished\<rparr>))
      else Blocked)"

datatype pl_event =
    PlRead ws_read
  | PlFwdClosed nat
  | PlFwdRecv nat
  | PlFwdSend nat bool
  | PlWriteEnd
  | PlStopWake
  | PlStopFinish
  | PlPubBox bytes string
  | PlStorePut bytes bytes

definition pl_step :: "pl_event \<Rightarrow> packageListener \<Rightarrow> packageListener go" where
  "pl_step e pl =
     (case e of
        PlRead m \<Rightarrow> pl_read m pl
      | PlFwdClosed i \<Rightarrow> pl_forwarder_closed i pl
      | PlFwdRecv i \<Rightarrow> pl_forwarder_recv i pl
      | PlFwdSend i ok \<Rightarrow> pl_forwarder_send i ok pl
      | PlWriteEnd \<Rightarrow> pl_write_end pl
      | PlStopWake \<Rightarrow> pl_stop_wake pl
      | PlStopFinish \<Rightarrow> pl_stop_finish pl
      | PlPubBox pkg topic \<Rightarrow>
          (case Pub pkg topic (dropBoxPubSub pl, heap pl) of
             Blocked \<Rightarrow> Blocked | Panic \<Rightarrow> Panic | Ok h \<Rightarrow> Ok (pl\<lparr>heap := h\<rparr>))
      | PlStorePut k v \<Rightarrow> Ok (pl\<lparr>store := (store pl)(k \<mapsto> v)\<rparr>))"

fun pl_exec :: "pl_event list \<Rightarrow> packageListener \<Rightarrow> packageListener go" where
  "pl_exec [] pl = Ok pl"
| "pl_exec (e # es) pl =
     (case pl_step e pl of
        Ok pl' \<Rightarrow> pl_exec es pl'
      | Blocked \<Rightarrow> Blocked
      | Panic \<Rightarrow> Panic)"

section \<open>The handlers that open a socket\<close>

text \<open>
  An upgrade request: its \<^verbatim>\<open>Sec-Websocket-Protocol\<close> header, if any, and whether the
  websocket handshake is well formed (the upgrader answers 400 itself when it is not).
  \<^verbatim>\<open>Header.Get\<close> gives the empty string for a missing header.
\<close>

record upgrade_request =
  sec_websocket_protocol :: "string option"
  handshake_ok :: bool

definition header_Get :: "string option \<Rightarrow> string" where
  "header_Get v = (case v of None \<Rightarrow> [] | Some s \<Rightarrow> s)"

definition empty_world :: world where
  "empty_world =
     \<lparr>heap = Map.empty, next_chan = 1, sub_cap = 5, dropBoxPubSub = (\<lambda>_. []),
      messagesPubSub = (\<lambda>_. []), store = Map.empty, store_down = False\<rparr>"

text \<open>
  \<^verbatim>\<open>verifyAccessToken\<close> is defined elsewhere and is a parameter here: it yields an
  error, or the user id of the token, 0 for a token that is not valid.
\<close>

definition createSocketHandler ::
  "(string \<Rightarrow> kvs_error + 64 word) \<Rightarrow> world \<Rightarrow> upgrade_request \<Rightarrow> response \<times> socketServer option" where
  "createSocketHandler verifyAccessToken w r =
     (let token = header_Get (sec_websocket_protocol r) in
      case verifyAccessToken token of
        Inl _ \<Rightarrow> (SendInternalErr, None)
      | Inr uid \<Rightarrow>
          if uid = 0 then (SendInvalidAccessToken, None)
          else if \<not> handshake_ok r then (UpgradeRefused, None)
          else (Upgraded, Some (start (newSocketServer w uid))))"

text \<open>
  GET /drop-boxes/watch: \<^verbatim>\<open>createPackageWatcherHandler\<close> upgrades the connection and
  starts a listener; it reads no header and verifies no token.
\<close>

definition createPackageWatcherHandler ::
  "world \<Rightarrow> upgrade_request \<Rightarrow> response \<times> packageListener option" where
  "createPackageWatcherHandler w r =
     (if \<not> handshake_ok r then (UpgradeRefused, None)
      else (Upgraded, Some (pl_start (newPackageListener w))))"

section \<open>Sessions used in the examples\<close>

text \<open>
  A box id with its hex name, a freshly started session of each kind for user 7 in an
  empty world, and the same sessions after a WATCH for the box.
\<close>

definition box_a :: bytes where
  "box_a = [0, 17, 34, 51, 68, 85, 102, 119, 136, 153, 170, 187, 204, 221, 238, 255]"

definition hex_a :: string where
  "hex_a = ''00112233445566778899aabbccddeeff''"

definition ss0 :: socketServer where
  "ss0 = start (newSocketServer empty_world 7)"

definition pl0 :: packageListener where
  "pl0 = pl_start (newPackageListener empty_world)"

definition ss_watching :: socketServer where
  "ss_watching = (case step (Read (Binary (socketCmdWatch # box_a))) ss0 of Ok s \<Rightarrow> s | _ \<Rightarrow> ss0)"

definition pl_watching :: packageListener where
  "pl_watching =
     (case pl_step (PlRead (Binary (clientCmdWatch # box_a))) pl0 of Ok s \<Rightarrow> s | _ \<Rightarrow> pl0)"

section \<open>Properties of the integer codec\<close>

lemma Uint64_PutUint64: "Uint64 (PutUint64 v) = v"
proof (rule bit_word_eqI)
  fix n :: nat
  assume "n < LENGTH(64)"
  then have "n < 64" by simp
  then consider "n < 8" | "8 \<le> n \<and> n < 16" | "16 \<le> n \<and> n < 24" | "24 \<le> n \<and> n < 32"
    | "32 \<le> n \<and> n < 40" | "40 \<le> n \<and> n < 48" | "48 \<le> n \<and> n < 56" | "56 \<le> n \<and> n < 64"
    by linarith
  then show "bit (Uint64 (PutUint64 v)) n = bit v n"
    by cases (auto simp add: Uint64_def PutUint64_def bit_simps)
qed

lemma length_PutUint64: "length (PutUint64 v) = 8"
  by (simp add: PutUint64_def)

text \<open>
  C10: for every \<^verbatim>\<open>int64\<close> value \<open>i\<close>, \<^verbatim>\<open>int64ToBytes(i)\<close> is exactly 8 bytes, byte \<open>k\<close>
  holding bits \<open>8k .. 8k+7\<close> of \<open>i\<close> (little-endian), \<^verbatim>\<open>bytesToInt64\<close> of it is \<open>i\<close> again,
  and \<^verbatim>\<open>bytesToInt64\<close> panics on every input shorter than 8 bytes.
\<close>

theorem int64_codec_roundtrip:
  "length (int64ToBytes i) = 8
   \<and> (\<forall>k<8. int64ToBytes i ! k = ucast (drop_bit (8 * k) i))
   \<and> bytesToInt64 (int64ToBytes i) = Inr i
   \<and> (length b < 8 \<longrightarrow> isl (bytesToInt64 b))"
proof -
  have le: "\<forall>k<8. int64ToBytes i ! k = ucast (drop_bit (8 * k) i)"
  proof (intro allI impI)
    fix k :: nat
    assume "k < 8"
    then consider "k = 0" | "k = 1" | "k = 2" | "k = 3" | "k = 4" | "k = 5" | "k = 6" | "k = 7"
      by linarith
    then show "int64ToBytes i ! k = ucast (drop_bit (8 * k) i)"
      by cases (simp_all add: int64ToBytes_def PutUint64_def)
  qed
  have rt: "bytesToInt64 (int64ToBytes i) = Inr i"
    by (simp add: bytesToInt64_def int64ToBytes_def length_PutUint64 Uint64_PutUint64)
  have short: "length b < 8 \<longrightarrow> isl (bytesToInt64 b)"
    by (simp add: bytesToInt64_def)
  show ?thesis
    using le rt short by (simp add: int64ToBytes_def length_PutUint64)
qed

theorem int64_codec_roundtrip_witness:
  "length (int64ToBytes 258) = 8
   \<and> int64ToBytes 258 ! 1 = 1
   \<and> bytesToInt64 (int64ToBytes 258) = Inr 258
   \<and> bytesToInt64 [1, 2, 3] = Inl ErrUnexpectedEOF"
proof -
  have "int64ToBytes 258 ! 1 = 1"
    by (simp add: int64ToBytes_def PutUint64_def)
  moreover have "bytesToInt64 [1, 2, 3] = Inl ErrUnexpectedEOF"
    by (simp add: bytesToInt64_def)
  ultimately show ?thesis
    using int64_codec_roundtrip [of 258 "[1, 2, 3]"] by simp
qed

section \<open>Properties of the REST handlers\<close>

lemma parse_invalid:
  "\<not> (\<exists>B. DecodeString box_id = Inr B \<and> length B = 16) \<Longrightarrow> parseDropBoxID box_id = Inl SendBadReq"
  by (auto simp: parseDropBoxID_def dropBoxIDSize_def split: sum.splits)

lemma parse_valid:
  "DecodeString box_id = Inr B \<Longrightarrow> length B = 16 \<Longrightarrow> parseDropBoxID box_id = Inr (B, box_id)"
  by (simp add: parseDropBoxID_def dropBoxIDSize_def)

lemma parse_Inr:
  "parseDropBoxID box_id = Inr (B, h) \<Longrightarrow> DecodeString box_id = Inr B \<and> length B = 16 \<and> h = box_id"
  by (auto simp: parseDropBoxID_def dropBoxIDSize_def split: sum.splits if_splits)

lemma putAll_other:
  "putAll b es = Inr b' \<Longrightarrow> k \<notin> decodeUnchecked ` fst ` set es \<Longrightarrow> b' k = b k"
proof (induction es arbitrary: b)
  case Nil
  then show ?case by simp
next
  case (Cons e es)
  obtain h pkg where e: "e = (h, pkg)" by (cases e)
  from Cons.prems(1) obtain b1 where
    b1: "bucket_Put b (decodeUnchecked h) pkg = Inr b1" and rest: "putAll b1 es = Inr b'"
    by (auto simp: e split: sum.splits)
  from Cons.prems(2) have k: "k \<noteq> decodeUnchecked h" "k \<notin> decodeUnchecked ` fst ` set es"
    by (auto simp: e)
  from b1 have "b1 k = b k"
    using k(1) by (auto simp: bucket_Put_def split: if_splits)
  with Cons.IH [OF rest k(2)] show ?case by simp
qed

lemma readParts_keys:
  "readParts ps acc = Inr entries \<Longrightarrow> h \<in> fst ` set entries \<Longrightarrow>
     h \<in> fst ` set acc \<or> (\<exists>d b. Part h d \<in> set ps \<and> DecodeString h = Inr b \<and> length b = 16)"
proof (induction ps acc rule: readParts.induct)
  case (1 entries)
  then show ?case by simp
next
  case (2 ps entries)
  then show ?case by simp
next
  case (3 hexBoxID d ps acc)
  from "3.prems"(1) obtain data boxID where
    d: "d = Inr data" and dec: "DecodeString hexBoxID = Inr boxID" and len: "length boxID = 16"
    and rest: "readParts ps (AList.update hexBoxID data acc) = Inr entries"
    by (auto simp: dropBoxIDSize_def split: sum.splits if_splits)
  from "3.IH" [OF d dec _ rest "3.prems"(2)] len
  have "h \<in> fst ` set (AList.update hexBoxID data acc) \<or>
        (\<exists>d b. Part h d \<in> set ps \<and> DecodeString h = Inr b \<and> length b = 16)"
    by (simp add: dropBoxIDSize_def)
  then show ?case
  proof
    assume "h \<in> fst ` set (AList.update hexBoxID data acc)"
    moreover have "set (map fst (AList.update hexBoxID data acc)) \<subseteq> insert hexBoxID (set (map fst acc))"
      by (auto simp: update_keys)
    ultimately have "h = hexBoxID \<or> h \<in> fst ` set acc"
      by auto
    then show ?thesis using dec len d by auto
  next
    assume "\<exists>d b. Part h d \<in> set ps \<and> DecodeString h = Inr b \<and> length b = 16"
    then show ?thesis by auto
  qed
qed

lemma readParts_Inl: "readParts ps acc = Inl r \<Longrightarrow> r = SendBadReq"
  by (induction ps acc rule: readParts.induct) (auto split: sum.splits if_splits)

lemma serve_other_box:
  assumes "serve r db = (resp, db', fx)" and "\<not> (writes_to B r \<and> status_code resp = 200)"
  shows "db' B = db B"
proof (cases r)
  case (GET box_id)
  with assms(1) show ?thesis
    by (auto simp: pickUpPackageHandler_def split: sum.splits)
next
  case (PUT commit_ok box_id body)
  show ?thesis
  proof (cases "status_code resp = 200")
    case False
    with assms(1) PUT show ?thesis
      by (auto simp: dropPackageHandler_def db_Update_def split: sum.splits if_splits)
  next
    case True
    with assms(2) PUT have "DecodeString box_id \<noteq> Inr B" by simp
    with assms(1) PUT show ?thesis
      by (auto simp: dropPackageHandler_def db_Update_def bucket_Put_def
               dest!: parse_Inr split: sum.splits if_splits)
  qed
next
  case (POST rank rank' commit_ok multipart)
  show ?thesis
  proof (cases "status_code resp = 200")
    case False
    with assms(1) POST show ?thesis
      by (auto simp: sendMultiplePackagesHandler_def db_Update_def split: option.splits sum.splits if_splits)
  next
    case True
    with assms(1) POST obtain parts entries where
      mp: "multipart = Some parts" and rp: "readParts parts [] = Inr entries"
      and pa: "putAll db (range_map rank entries) = Inr db'"
      by (auto simp: sendMultiplePackagesHandler_def db_Update_def dest: readParts_Inl
               split: option.splits sum.splits if_splits)
    from True assms(2) POST mp have nb: "\<not> list_ex (names_box B) parts" by simp
    have "B \<notin> decodeUnchecked ` fst ` set (range_map rank entries)"
    proof
      assume "B \<in> decodeUnchecked ` fst ` set (range_map rank entries)"
      then obtain h where h: "h \<in> fst ` set entries" and B: "B = decodeUnchecked h"
        by (auto simp: range_map_def)
      from readParts_keys [OF rp h] obtain d b where
        "Part h d \<in> set parts" "DecodeString h = Inr b"
        by auto
      with B have "Part h d \<in> set parts" "names_box B (Part h d)"
        by (auto simp: decodeUnchecked_def)
      with nb show False by (auto simp: list_ex_iff)
    qed
    from putAll_other [OF pa this] show ?thesis .
  qed
qed

lemma serve_all_keeps:
  "no_put_to B rs db \<Longrightarrow> serve_all rs db B = db B"
proof (induction rs arbitrary: db)
  case Nil
  then show ?case by simp
next
  case (Cons r rs)
  obtain resp db' fx where s: "serve r db = (resp, db', fx)" by (cases "serve r db")
  with Cons.prems have a: "\<not> (writes_to B r \<and> status_code resp = 200)" and b: "no_put_to B rs db'"
    by auto
  from Cons.IH [OF b] serve_other_box [OF s a] s show ?case by simp
qed

lemma put_ok_stores:
  assumes "DecodeString h = Inr B" "length B = 16"
    and "serve (PUT commit_ok h (Inr p)) db = (resp, db1, fx)" "status_code resp = 200"
  shows "db1 B = Some p"
  using assms
  by (auto simp: dropPackageHandler_def db_Update_def bucket_Put_def parse_valid
           split: sum.splits if_splits)

text \<open>
  C1: let \<open>B\<close> be a 16-byte box id and \<open>p\<close> any package (the empty one too). Once a PUT
  on a path that decodes to \<open>B\<close> has answered 200, a GET on any path that decodes to \<open>B\<close>
  answers 200 with exactly \<open>p\<close>, after any run of further requests in which no write to
  \<open>B\<close> succeeds (a PUT to \<open>B\<close>, or a multipart send with a part named \<open>B\<close>, answered 200).
  The GET leaves the store as it is, so repeating it gives \<open>p\<close> again; the store is a map
  from ids to packages, so a box holds one package and an overwritten one is gone.
\<close>

theorem put_then_get:
  assumes "DecodeString h = Inr B" and "length B = 16"
    and "serve (PUT commit_ok h (Inr p)) db = (resp, db1, fx)" and "status_code resp = 200"
    and "no_put_to B rs db1"
    and "DecodeString h' = Inr B"
  shows "serve (GET h') (serve_all rs db1) = (Raw 200 p, serve_all rs db1, [View])"
proof -
  have "serve_all rs db1 B = Some p"
    using serve_all_keeps [OF assms(5)] put_ok_stores [OF assms(1-4)] by simp
  then show ?thesis
    by (simp add: pickUpPackageHandler_def parse_valid [OF assms(6) assms(2)]
                  pickUpPackage_def bucket_Get_def)
qed

lemma update_entries: "set (AList.update k v al) \<subseteq> insert (k, v) (set al)"
  by (induction al) auto

lemma update_has_key: "k \<in> fst ` set (AList.update k v al)"
  by (induction al) auto

lemma update_keeps_keys: "h \<in> fst ` set al \<Longrightarrow> h \<in> fst ` set (AList.update k v al)"
  by (induction al) auto

lemma readParts_entries:
  "readParts ps acc = Inr entries \<Longrightarrow> (h, d) \<in> set entries \<Longrightarrow>
     (h, d) \<in> set acc \<or> (Part h (Inr d) \<in> set ps \<and> (\<exists>b. DecodeString h = Inr b \<and> length b = 16))"
proof (induction ps acc rule: readParts.induct)
  case (1 entries)
  then show ?case by simp
next
  case (2 ps entries)
  then show ?case by simp
next
  case (3 hexBoxID dd ps acc)
  from "3.prems"(1) obtain data boxID where
    d: "dd = Inr data" and dec: "DecodeString hexBoxID = Inr boxID" and len: "length boxID = 16"
    and rest: "readParts ps (AList.update hexBoxID data acc) = Inr entries"
    by (auto simp: dropBoxIDSize_def split: sum.splits if_splits)
  from "3.IH" [OF d dec _ rest "3.prems"(2)] len
  have "(h, d) \<in> set (AList.update hexBoxID data acc) \<or>
        (Part h (Inr d) \<in> set ps \<and> (\<exists>b. DecodeString h = Inr b \<and> length b = 16))"
    by (simp add: dropBoxIDSize_def)
  then show ?case
    using update_entries [of hexBoxID data acc] dec len d by auto
qed

lemma readParts_keeps_keys:
  "readParts ps acc = Inr entries \<Longrightarrow> k \<in> fst ` set acc \<Longrightarrow> k \<in> fst ` set entries"
proof (induction ps acc rule: readParts.induct)
  case (1 entries)
  then show ?case by simp
next
  case (2 ps entries)
  then show ?case by simp
next
  case (3 hexBoxID dd ps acc)
  from "3.prems"(1) obtain data boxID where
    d: "dd = Inr data" and dec: "DecodeString hexBoxID = Inr boxID" and len: "length boxID = 16"
    and rest: "readParts ps (AList.update hexBoxID data acc) = Inr entries"
    by (auto simp: dropBoxIDSize_def split: sum.splits if_splits)
  from len have len': "\<not> length boxID \<noteq> dropBoxIDSize" by (simp add: dropBoxIDSize_def)
  from "3.IH" [OF d dec len' rest update_keeps_keys [OF "3.prems"(2)]] show ?case .
qed

lemma readParts_all_valid:
  "readParts ps acc = Inr entries \<Longrightarrow> part \<in> set ps \<Longrightarrow>
     \<exists>h d b. part = Part h (Inr d) \<and> DecodeString h = Inr b \<and> length b = 16 \<and> h \<in> fst ` set entries"
proof (induction ps acc rule: readParts.induct)
  case (1 entries)
  then show ?case by simp
next
  case (2 ps entries)
  then show ?case by simp
next
  case (3 hexBoxID dd ps acc)
  from "3.prems"(1) obtain data boxID where
    d: "dd = Inr data" and dec: "DecodeString hexBoxID = Inr boxID" and len: "length boxID = 16"
    and rest: "readParts ps (AList.update hexBoxID data acc) = Inr entries"
    by (auto simp: dropBoxIDSize_def split: sum.splits if_splits)
  have keep: "\<And>k. k \<in> fst ` set (AList.update hexBoxID data acc) \<Longrightarrow> k \<in> fst ` set entries"
    using readParts_keeps_keys [OF rest] .
  show ?case
  proof (cases "part = Part hexBoxID dd")
    case True
    then show ?thesis
      using d dec len keep [OF update_has_key] by auto
  next
    case False
    with "3.prems"(2) have "part \<in> set ps" by simp
    from "3.IH" [OF d dec _ rest this] len show ?thesis
      by (simp add: dropBoxIDSize_def)
  qed
qed

lemma putAll_written:
  "putAll b es = Inr b' \<Longrightarrow> k \<in> decodeUnchecked ` fst ` set es \<Longrightarrow>
     \<exists>h d. (h, d) \<in> set es \<and> decodeUnchecked h = k \<and> b' k = Some d"
proof (induction es arbitrary: b)
  case Nil
  then show ?case by simp
next
  case (Cons e es)
  obtain h pkg where e: "e = (h, pkg)" by (cases e)
  from Cons.prems(1) obtain b1 where
    b1: "bucket_Put b (decodeUnchecked h) pkg = Inr b1" and rest: "putAll b1 es = Inr b'"
    by (auto simp: e split: sum.splits)
  show ?case
  proof (cases "k \<in> decodeUnchecked ` fst ` set es")
    case True
    from Cons.IH [OF rest True] show ?thesis by auto
  next
    case False
    with Cons.prems(2) have k: "k = decodeUnchecked h" by (auto simp: e)
    from b1 have "b1 k = Some pkg"
      by (auto simp: k bucket_Put_def split: if_splits)
    with putAll_other [OF rest False] have "b' k = Some pkg" by simp
    then show ?thesis using k e by auto
  qed
qed

lemma publishes_no_transaction:
  "[e \<leftarrow> map (\<lambda>(hexBoxID, pkg). Publish pkg hexBoxID) xs. e = Update \<or> e = View] = []"
  by (induction xs) auto

lemma send_ok_D:
  assumes "sendMultiplePackagesHandler rank rank' commit_ok db (Some parts) = (resp, db', fx)"
    and "status_code resp = 200"
  obtains entries where "readParts parts [] = Inr entries"
    and "putAll db (range_map rank entries) = Inr db'"
    and "fx = Update # map (\<lambda>(hexBoxID, pkg). Publish pkg hexBoxID) (range_map rank' entries)"
  using assms
  by (auto simp: sendMultiplePackagesHandler_def db_Update_def dest: readParts_Inl
           split: option.splits sum.splits if_splits)

lemma send_fail_D:
  assumes "sendMultiplePackagesHandler rank rank' commit_ok db multipart = (resp, db', fx)"
    and "status_code resp \<noteq> 200"
  shows "resp = SendBadReq \<and> db' = db"
  using assms
  by (auto simp: sendMultiplePackagesHandler_def db_Update_def dest: readParts_Inl
           split: option.splits sum.splits if_splits)

text \<open>
  C4: a POST /drop-boxes/send answers 200 or 400, and on 400 the store is unchanged. If
  some part has a form name that is not valid hex or does not decode to 16 bytes, the
  answer is 400, the store is unchanged and no transaction was opened. On 200 exactly
  one transaction (an update) was opened; every part is well formed and its box holds
  the package of a part that names this box, its own package when no other part names
  the box; boxes that no part names are unchanged.
\<close>

theorem multipart_all_or_nothing:
  assumes "sendMultiplePackagesHandler rank rank' commit_ok db (Some parts) = (resp, db', fx)"
  shows "(status_code resp = 200 \<or> (status_code resp = 400 \<and> db' = db))
       \<and> ((\<exists>part \<in> set parts. \<not> (\<exists>h d B. part = Part h d \<and> DecodeString h = Inr B \<and> length B = 16))
            \<longrightarrow> status_code resp = 400 \<and> db' = db \<and> fx = [])
       \<and> (status_code resp = 200 \<longrightarrow>
            [e \<leftarrow> fx. e = Update \<or> e = View] = [Update]
            \<and> (\<forall>part \<in> set parts. \<exists>h d B. part = Part h (Inr d) \<and> DecodeString h = Inr B
                  \<and> length B = 16
                  \<and> (\<exists>h' d'. Part h' (Inr d') \<in> set parts \<and> DecodeString h' = Inr B
                        \<and> db' B = Some d')
                  \<and> ((\<forall>part' \<in> set parts. names_box B part' \<longrightarrow> part' = part) \<longrightarrow> db' B = Some d))
            \<and> (\<forall>B. \<not> list_ex (names_box B) parts \<longrightarrow> db' B = db B))"
proof (cases "status_code resp = 200")
  case False
  from send_fail_D [OF assms False] have r: "resp = SendBadReq" "db' = db" by simp_all
  have "fx = []" if "\<exists>part \<in> set parts. \<not> (\<exists>h d B. part = Part h d \<and> DecodeString h = Inr B \<and> length B = 16)"
  proof (cases "readParts parts []")
    case (Inl a)
    with assms show ?thesis by (simp add: sendMultiplePackagesHandler_def)
  next
    case (Inr entries)
    from that obtain part where p: "part \<in> set parts"
      and bad: "\<not> (\<exists>h d B. part = Part h d \<and> DecodeString h = Inr B \<and> length B = 16)" by blast
    from readParts_all_valid [OF Inr p] bad show ?thesis by blast
  qed
  with r False show ?thesis by simp
next
  case True
  from send_ok_D [OF assms True] obtain entries where
    rp: "readParts parts [] = Inr entries"
    and pa: "putAll db (range_map rank entries) = Inr db'"
    and fx: "fx = Update # map (\<lambda>(hexBoxID, pkg). Publish pkg hexBoxID) (range_map rank' entries)"
    by blast
  have set_range: "set (range_map rank entries) = set entries"
    by (simp add: range_map_def)
  have valid: "\<forall>part \<in> set parts. \<exists>h d B. part = Part h d \<and> DecodeString h = Inr B \<and> length B = 16"
    using readParts_all_valid [OF rp] by blast
  have one_tx: "[e \<leftarrow> fx. e = Update \<or> e = View] = [Update]"
    by (simp add: fx publishes_no_transaction)
  have written: "\<exists>h d B. part = Part h (Inr d) \<and> DecodeString h = Inr B \<and> length B = 16
                  \<and> (\<exists>h' d'. Part h' (Inr d') \<in> set parts \<and> DecodeString h' = Inr B
                        \<and> db' B = Some d')
                  \<and> ((\<forall>part' \<in> set parts. names_box B part' \<longrightarrow> part' = part) \<longrightarrow> db' B = Some d)"
    if p: "part \<in> set parts" for part
  proof -
    from readParts_all_valid [OF rp p] obtain h d B where
      part: "part = Part h (Inr d)" and dec: "DecodeString h = Inr B" and len: "length B = 16"
      and key: "h \<in> fst ` set entries" by blast
    from dec have du: "decodeUnchecked h = B" by (simp add: decodeUnchecked_def)
    from key du have "B \<in> decodeUnchecked ` fst ` set (range_map rank entries)"
      by (auto simp: set_range)
    from putAll_written [OF pa this] obtain h' d' where
      e: "(h', d') \<in> set entries" and du': "decodeUnchecked h' = B" and got: "db' B = Some d'"
      by (auto simp: set_range)
    from readParts_entries [OF rp e] obtain b where
      p': "Part h' (Inr d') \<in> set parts" and dec': "DecodeString h' = Inr b" by auto
    from dec' du' have decB: "DecodeString h' = Inr B" by (simp add: decodeUnchecked_def)
    have "db' B = Some d" if "\<forall>part' \<in> set parts. names_box B part' \<longrightarrow> part' = part"
    proof -
      from that p' decB have "Part h' (Inr d') = part" by auto
      with part got show ?thesis by simp
    qed
    with part dec len p' decB got show ?thesis by blast
  qed
  have others: "db' B = db B" if nb: "\<not> list_ex (names_box B) parts" for B
  proof -
    have "B \<notin> decodeUnchecked ` fst ` set (range_map rank entries)"
    proof
      assume "B \<in> decodeUnchecked ` fst ` set (range_map rank entries)"
      then obtain h where h: "h \<in> fst ` set entries" and B: "B = decodeUnchecked h"
        by (auto simp: set_range)
      from readParts_keys [OF rp h] obtain d b where
        "Part h d \<in> set parts" "DecodeString h = Inr b" by auto
      with B have "Part h d \<in> set parts" "names_box B (Part h d)"
        by (auto simp: decodeUnchecked_def)
      with nb show False by (auto simp: list_ex_iff)
    qed
    from putAll_other [OF pa this] show ?thesis .
  qed
  from True valid one_tx written others show ?thesis by blast
qed

lemma decode_box_a:
  "DecodeString ''00112233445566778899aabbccddeeff'' =
     Inr [0, 17, 34, 51, 68, 85, 102, 119, 136, 153, 170, 187, 204, 221, 238, 255]"
  by (simp add: fromHexChar_def)

lemma decode_box_a_upper:
  "DecodeString ''00112233445566778899AABBCCDDEEFF'' =
     Inr [0, 17, 34, 51, 68, 85, 102, 119, 136, 153, 170, 187, 204, 221, 238, 255]"
  by (simp add: fromHexChar_def)

lemma decode_box_b:
  "DecodeString ''ff112233445566778899aabbccddeeff'' =
     Inr [255, 17, 34, 51, 68, 85, 102, 119, 136, 153, 170, 187, 204, 221, 238, 255]"
  by (simp add: fromHexChar_def)

text \<open>
  C8: a GET or a PUT on /drop-boxes/{box\_id} whose \<open>box_id\<close> is not valid hex, or does
  not decode to exactly 16 bytes, is answered with \<^verbatim>\<open>sendBadReq\<close> (status 400); the store
  is left as it was and no transaction is opened on it, neither to read nor to write.
\<close>

theorem invalid_box_id_rejected:
  assumes "\<not> (\<exists>B. DecodeString box_id = Inr B \<and> length B = 16)"
  shows "pickUpPackageHandler db box_id = (SendBadReq, db, [])
       \<and> dropPackageHandler commit_ok db box_id body = (SendBadReq, db, [])
       \<and> status_code SendBadReq = 400"
  using parse_invalid [OF assms]
  by (simp add: pickUpPackageHandler_def dropPackageHandler_def)

theorem invalid_box_id_rejected_witness:
  "pickUpPackageHandler Map.empty ''00ff'' = (SendBadReq, Map.empty, [])
   \<and> dropPackageHandler True Map.empty ''watch'' (Inr [1]) = (SendBadReq, Map.empty, [])"
proof -
  have a: "\<not> (\<exists>B. DecodeString ''00ff'' = Inr B \<and> length B = 16)"
    by (auto simp: fromHexChar_def)
  have b: "\<not> (\<exists>B. DecodeString ''watch'' = Inr B \<and> length B = 16)"
    by (simp add: fromHexChar_def)
  show ?thesis
    using invalid_box_id_rejected [OF a, of Map.empty True "Inr [1]"]
          invalid_box_id_rejected [OF b, of Map.empty True "Inr [1]"]
    by simp
qed

theorem put_then_get_witness:
  "serve (PUT True ''00112233445566778899aabbccddeeff'' (Inr [78, 46])) Map.empty =
     (SendSuccess,
      [[0, 17, 34, 51, 68, 85, 102, 119, 136, 153, 170, 187, 204, 221, 238, 255] \<mapsto> [78, 46]],
      [Update, Publish [78, 46] ''00112233445566778899aabbccddeeff''])
   \<and> fst (serve (GET ''00112233445566778899AABBCCDDEEFF'')
        (serve_all
           [GET ''00112233445566778899aabbccddeeff'',
            PUT False ''00112233445566778899aabbccddeeff'' (Inr [9]),
            PUT True ''ff112233445566778899aabbccddeeff'' (Inr [7])]
           [[0, 17, 34, 51, 68, 85, 102, 119, 136, 153, 170, 187, 204, 221, 238, 255] \<mapsto> [78, 46]]))
     = Raw 200 [78, 46]"
proof -
  let ?B = "[0, 17, 34, 51, 68, 85, 102, 119, 136, 153, 170, 187, 204, 221, 238, 255] :: bytes"
  let ?B' = "[255, 17, 34, 51, 68, 85, 102, 119, 136, 153, 170, 187, 204, 221, 238, 255] :: bytes"
  let ?rs = "[GET ''00112233445566778899aabbccddeeff'',
            PUT False ''00112233445566778899aabbccddeeff'' (Inr [9]),
            PUT True ''ff112233445566778899aabbccddeeff'' (Inr [7])]"
  have len: "length ?B = 16" by simp
  have pa: "parseDropBoxID ''00112233445566778899aabbccddeeff'' = Inr (?B, ''00112233445566778899aabbccddeeff'')"
    using parse_valid [OF decode_box_a len] .
  have pb: "parseDropBoxID ''ff112233445566778899aabbccddeeff'' = Inr (?B', ''ff112233445566778899aabbccddeeff'')"
    using parse_valid [OF decode_box_b] by simp
  have put: "serve (PUT True ''00112233445566778899aabbccddeeff'' (Inr [78, 46])) Map.empty =
     (SendSuccess, [?B \<mapsto> [78, 46]], [Update, Publish [78, 46] ''00112233445566778899aabbccddeeff''])"
    by (simp add: dropPackageHandler_def pa db_Update_def bucket_Put_def)
  have ok: "status_code SendSuccess = 200" by simp
  have quiet: "no_put_to ?B ?rs [?B \<mapsto> [78, 46]]"
    by (simp add: pickUpPackageHandler_def dropPackageHandler_def pa pb db_Update_def bucket_Put_def
                  decode_box_a decode_box_b del: DecodeString.simps)
  from put_then_get [OF decode_box_a len put ok quiet decode_box_a_upper] put
  show ?thesis by simp
qed

text \<open>
  C5: when the write to the store fails (here the commit), PUT /drop-boxes/{box\_id}
  answers with \<^verbatim>\<open>sendInternalErr\<close> (500), but POST /drop-boxes/send answers with
  \<^verbatim>\<open>sendBadReq\<close> (400) although every part of the request is well formed.
\<close>

theorem send_store_failure_answers_400:
  "status_code (fst (sendMultiplePackagesHandler (\<lambda>_. 0) (\<lambda>_. 0) False Map.empty
       (Some [Part ''00112233445566778899aabbccddeeff'' (Inr [97])]))) = 400
   \<and> status_code (fst (dropPackageHandler False Map.empty
       ''00112233445566778899aabbccddeeff'' (Inr [97]))) = 500"
proof -
  let ?B = "[0, 17, 34, 51, 68, 85, 102, 119, 136, 153, 170, 187, 204, 221, 238, 255] :: bytes"
  have pa: "parseDropBoxID ''00112233445566778899aabbccddeeff'' = Inr (?B, ''00112233445566778899aabbccddeeff'')"
    using parse_valid [OF decode_box_a] by simp
  have rp: "readParts [Part ''00112233445566778899aabbccddeeff'' (Inr [97])] [] =
              Inr [(''00112233445566778899aabbccddeeff'', [97])]"
    by (simp add: decode_box_a dropBoxIDSize_def del: DecodeString.simps)
  have "status_code (fst (sendMultiplePackagesHandler (\<lambda>_. 0) (\<lambda>_. 0) False Map.empty
       (Some [Part ''00112233445566778899aabbccddeeff'' (Inr [97])]))) = 400"
    by (simp add: sendMultiplePackagesHandler_def rp range_map_def db_Update_def
                  decodeUnchecked_def decode_box_a bucket_Put_def del: DecodeString.simps readParts.simps)
  moreover have "status_code (fst (dropPackageHandler False Map.empty
       ''00112233445566778899aabbccddeeff'' (Inr [97]))) = 500"
    by (simp add: dropPackageHandler_def pa db_Update_def bucket_Put_def)
  ultimately show ?thesis by simp
qed

theorem multipart_all_or_nothing_witness:
  "(case sendMultiplePackagesHandler (\<lambda>_. 0) (\<lambda>_. 0) True Map.empty
       (Some [Part ''00112233445566778899aabbccddeeff'' (Inr [97]),
              Part ''ff112233445566778899aabbccddeeff'' (Inr [98, 98])]) of
      (resp, db', fx) \<Rightarrow>
        status_code resp = 200
        \<and> db' [0, 17, 34, 51, 68, 85, 102, 119, 136, 153, 170, 187, 204, 221, 238, 255] = Some [97]
        \<and> db' [255, 17, 34, 51, 68, 85, 102, 119, 136, 153, 170, 187, 204, 221, 238, 255] = Some [98, 98])
   \<and> (case sendMultiplePackagesHandler (\<lambda>_. 0) (\<lambda>_. 0) True Map.empty
       (Some [Part ''00112233445566778899aabbccddeeff'' (Inr [97]),
              Part ''ff11'' (Inr [98, 98])]) of
      (resp, db', fx) \<Rightarrow> status_code resp = 400 \<and> db' = Map.empty \<and> fx = [])"
proof -
  let ?a = "''00112233445566778899aabbccddeeff''"
  let ?b = "''ff112233445566778899aabbccddeeff''"
  let ?A = "[0, 17, 34, 51, 68, 85, 102, 119, 136, 153, 170, 187, 204, 221, 238, 255] :: bytes"
  let ?B = "[255, 17, 34, 51, 68, 85, 102, 119, 136, 153, 170, 187, 204, 221, 238, 255] :: bytes"
  let ?good = "[Part ?a (Inr [97]), Part ?b (Inr [98, 98])]"
  let ?bad = "[Part ?a (Inr [97]), Part ''ff11'' (Inr [98, 98])]"
  obtain resp db' fx where
    g: "sendMultiplePackagesHandler (\<lambda>_. 0) (\<lambda>_. 0) True Map.empty (Some ?good) = (resp, db', fx)"
    by (cases "sendMultiplePackagesHandler (\<lambda>_. 0) (\<lambda>_. 0) True Map.empty (Some ?good)")
  have rp: "readParts ?good [] = Inr [(?a, [97]), (?b, [98, 98])]"
    by (simp add: decode_box_a decode_box_b dropBoxIDSize_def del: DecodeString.simps)
  from g have ok: "status_code resp = 200"
    by (auto simp: sendMultiplePackagesHandler_def rp range_map_def db_Update_def
                  decodeUnchecked_def decode_box_a decode_box_b bucket_Put_def
             simp del: DecodeString.simps readParts.simps)
  note main = multipart_all_or_nothing [OF g]
  from main ok have all: "\<forall>part \<in> set ?good. \<exists>h d B. part = Part h (Inr d) \<and> DecodeString h = Inr B
                  \<and> length B = 16
                  \<and> (\<exists>h' d'. Part h' (Inr d') \<in> set ?good \<and> DecodeString h' = Inr B
                        \<and> db' B = Some d')
                  \<and> ((\<forall>part' \<in> set ?good. names_box B part' \<longrightarrow> part' = part) \<longrightarrow> db' B = Some d)"
    by blast
  from all have "db' ?A = Some [97]"
    by (auto simp: decode_box_a decode_box_b simp del: DecodeString.simps)
  moreover from all have "db' ?B = Some [98, 98]"
    by (auto simp: decode_box_a decode_box_b simp del: DecodeString.simps)
  moreover
  obtain resp2 db2 fx2 where
    b: "sendMultiplePackagesHandler (\<lambda>_. 0) (\<lambda>_. 0) True Map.empty (Some ?bad) = (resp2, db2, fx2)"
    by (cases "sendMultiplePackagesHandler (\<lambda>_. 0) (\<lambda>_. 0) True Map.empty (Some ?bad)")
  have short: "DecodeString ''ff11'' = Inr [255, 17]" by (simp add: fromHexChar_def)
  have "\<exists>part \<in> set ?bad. \<not> (\<exists>h d B. part = Part h d \<and> DecodeString h = Inr B \<and> length B = 16)"
    by (auto simp: short simp del: DecodeString.simps)
  with multipart_all_or_nothing [OF b] have "status_code resp2 = 400 \<and> db2 = Map.empty \<and> fx2 = []"
    by blast
  ultimately show ?thesis using ok g b by simp
qed

section \<open>Properties of the socket handlers\<close>

text \<open>
  Against C3 as stated: an upgrade request to GET /drop-boxes/watch that carries no
  \<^verbatim>\<open>Sec-Websocket-Protocol\<close> header is upgraded and gets a running listener; it is not
  answered 401.
\<close>

theorem watch_endpoint_needs_no_token:
  "\<not> (\<forall>w r. sec_websocket_protocol r = None \<longrightarrow>
         status_code (fst (createPackageWatcherHandler w r)) = 401
         \<and> snd (createPackageWatcherHandler w r) = None)"
proof
  assume a: "\<forall>w r. sec_websocket_protocol r = None \<longrightarrow>
         status_code (fst (createPackageWatcherHandler w r)) = 401
         \<and> snd (createPackageWatcherHandler w r) = None"
  have "sec_websocket_protocol \<lparr>sec_websocket_protocol = None, handshake_ok = True\<rparr> = None"
    by simp
  with a have "status_code (fst (createPackageWatcherHandler empty_world
      \<lparr>sec_websocket_protocol = None, handshake_ok = True\<rparr>)) = 401" by blast
  then show False by (simp add: createPackageWatcherHandler_def)
qed

text \<open>
  C3, amended: on the endpoint of \<^verbatim>\<open>createSocketHandler\<close>, a request whose token (the
  \<^verbatim>\<open>Sec-Websocket-Protocol\<close> header, empty when missing) resolves to user 0 is answered
  401 and gets no session; a session is started only for a token that resolves to a
  user other than 0, on a well-formed handshake. The endpoint of
  \<^verbatim>\<open>createPackageWatcherHandler\<close> checks no token: it upgrades every well-formed
  handshake.
\<close>

theorem socket_upgrade_requires_user:
  "(verifyAccessToken (header_Get (sec_websocket_protocol r)) = Inr 0 \<longrightarrow>
      status_code (fst (createSocketHandler verifyAccessToken w r)) = 401
      \<and> snd (createSocketHandler verifyAccessToken w r) = None)
   \<and> (snd (createSocketHandler verifyAccessToken w r) \<noteq> None \<longrightarrow>
        (\<exists>uid. verifyAccessToken (header_Get (sec_websocket_protocol r)) = Inr uid \<and> uid \<noteq> 0
           \<and> handshake_ok r
           \<and> createSocketHandler verifyAccessToken w r =
               (Upgraded, Some (start (newSocketServer w uid)))))
   \<and> (createPackageWatcherHandler w r =
        (if handshake_ok r then (Upgraded, Some (pl_start (newPackageListener w)))
         else (UpgradeRefused, None)))"
  by (auto simp: createSocketHandler_def createPackageWatcherHandler_def Let_def
           split: sum.splits if_splits)

theorem socket_upgrade_requires_user_witness:
  "status_code (fst (createSocketHandler (\<lambda>t. if t = ''tok'' then Inr 7 else Inr 0) empty_world
      \<lparr>sec_websocket_protocol = None, handshake_ok = True\<rparr>)) = 401
   \<and> snd (createSocketHandler (\<lambda>t. if t = ''tok'' then Inr 7 else Inr 0) empty_world
      \<lparr>sec_websocket_protocol = None, handshake_ok = True\<rparr>) = None
   \<and> fst (createSocketHandler (\<lambda>t. if t = ''tok'' then Inr 7 else Inr 0) empty_world
      \<lparr>sec_websocket_protocol = Some ''tok'', handshake_ok = True\<rparr>) = Upgraded"
proof -
  let ?v = "\<lambda>t. if t = ''tok'' then Inr 7 else (Inr 0 :: kvs_error + 64 word)"
  let ?r = "\<lparr>sec_websocket_protocol = None, handshake_ok = True\<rparr>"
  let ?r' = "\<lparr>sec_websocket_protocol = Some ''tok'', handshake_ok = True\<rparr>"
  have a: "?v (header_Get (sec_websocket_protocol ?r)) = Inr 0"
    by (simp add: header_Get_def)
  have b: "snd (createSocketHandler ?v empty_world ?r') \<noteq> None"
    by (simp add: createSocketHandler_def header_Get_def)
  from socket_upgrade_requires_user [of ?v ?r empty_world] a
  have "status_code (fst (createSocketHandler ?v empty_world ?r)) = 401
      \<and> snd (createSocketHandler ?v empty_world ?r) = None" by blast
  moreover from socket_upgrade_requires_user [of ?v ?r' empty_world] b
  have "fst (createSocketHandler ?v empty_world ?r') = Upgraded" by auto
  ultimately show ?thesis by simp
qed

section \<open>Properties of the sessions\<close>

lemma step_after_writer_gone:
  assumes "\<not> writing ss" and "step e ss = Ok ss'"
  shows "\<not> writing ss' \<and> sent ss' = sent ss"
proof (cases e)
  case (Read m)
  with assms show ?thesis
    by (auto simp: step_def readConn_def watchBox_def ignoreBox_def Let_def
             split: if_splits ws_read.splits list.splits go.splits prod.splits option.splits)
next
  case (WriteMessages ok)
  with assms show ?thesis by (simp add: step_def writeConn_recv_def)
next
  case (WritePkgs ok)
  with assms show ?thesis by (simp add: step_def writeConn_recv_def)
next
  case WriterClosed
  with assms show ?thesis by (simp add: step_def writeConn_closed_def)
next
  case (FwdClosed i)
  with assms show ?thesis by (auto simp: step_def forwarder_closed_def split: if_splits)
next
  case (FwdRecv i)
  with assms show ?thesis
    by (auto simp: step_def forwarder_recv_def split: if_splits go.splits prod.splits option.splits)
next
  case (FwdSend i)
  with assms show ?thesis
    by (auto simp: step_def forwarder_send_def split: if_splits go.splits fwd_pc.splits)
next
  case (PubBox pkg topic)
  with assms show ?thesis by (auto simp: step_def split: go.splits)
next
  case (PubUser msg uid)
  with assms show ?thesis by (auto simp: step_def split: go.splits)
next
  case (StorePut k v)
  with assms show ?thesis by (auto simp: step_def)
qed

lemma exec_after_writer_gone:
  "\<not> writing ss \<Longrightarrow> exec es ss = Ok ss' \<Longrightarrow> \<not> writing ss' \<and> sent ss' = sent ss"
proof (induction es arbitrary: ss)
  case Nil
  then show ?case by simp
next
  case (Cons e es)
  from Cons.prems(2) obtain s1 where s1: "step e ss = Ok s1" and rest: "exec es s1 = Ok ss'"
    by (auto split: go.splits)
  from step_after_writer_gone [OF Cons.prems(1) s1] Cons.IH [OF _ rest] show ?case by simp
qed

lemma ignore_watched:
  assumes "reading ss" and "pkgSubs ss (EncodeToString B) = Some c"
    and "c \<in> set (dropBoxPubSub ss (EncodeToString B))" and "heap ss c = Some ch"
  shows "step (Read (Binary (socketCmdIgnore # B))) ss =
           Ok (ss\<lparr>heap := (heap ss)(c \<mapsto> ch\<lparr>chan_closed := True\<rparr>),
                  dropBoxPubSub := (dropBoxPubSub ss)
                     (EncodeToString B := removeAll c (dropBoxPubSub ss (EncodeToString B))),
                  pkgSubs := (pkgSubs ss)(EncodeToString B := None)\<rparr>)"
  using assms
  by (simp add: step_def readConn_def ignoreBox_def Unsub_def Let_def
                socketCmdIgnore_def socketCmdNop_def socketCmdWatch_def)

lemma forwarder_sees_nil:
  assumes "i < length (forwarders ss)" and "f_pc (forwarders ss ! i) = AtSelect"
    and "heap ss (f_sub (forwarders ss ! i)) = Some ch" and "buf ch = []" and "chan_closed ch"
    and "heap ss (pkgs ss) = Some pch" and "\<not> chan_closed pch"
  shows "step (FwdRecv i) ss =
           Ok (ss\<lparr>heap := (heap ss)(pkgs ss \<mapsto> pch\<lparr>chan_closed := True\<rparr>),
                  forwarders := set_pc i Exited (forwarders ss)\<rparr>)"
  using assms
  by (simp add: step_def forwarder_recv_def chan_recv_def chan_close_def)

lemma writer_sees_nil:
  assumes "writing ss" and "heap ss (pkgs ss) = Some pch" and "buf pch = []" and "chan_closed pch"
  shows "step (WritePkgs ok) ss = Ok (ss\<lparr>writing := False\<rparr>)"
  using assms
  by (simp add: step_def writeConn_recv_def chan_recv_def)

text \<open>
  C9: in a socketServer session that watches box \<open>B\<close> (subscription \<open>c\<close>, forwarder
  \<open>i\<close> waiting in its select, nothing queued on \<open>c\<close> or on \<^verbatim>\<open>ss.pkgs\<close>), processing
  IGNORE \<open>B\<close> unsubscribes and closes \<open>c\<close>; the forwarder then receives nil, closes
  \<^verbatim>\<open>ss.pkgs\<close> and returns; the writer then receives nil from \<^verbatim>\<open>ss.pkgs\<close> and returns.
  From then on, whatever steps follow (publications on other watched boxes and to the
  user included), the writer stays gone and no frame is written to the connection.
\<close>

theorem ignore_ends_all_writes:
  assumes "reading ss" and "writing ss"
    and "pkgSubs ss (EncodeToString B) = Some c"
    and "c \<in> set (dropBoxPubSub ss (EncodeToString B))"
    and "heap ss c = Some ch" and "buf ch = []"
    and "i < length (forwarders ss)" and "f_sub (forwarders ss ! i) = c"
    and "f_pc (forwarders ss ! i) = AtSelect"
    and "heap ss (pkgs ss) = Some pch" and "\<not> chan_closed pch" and "buf pch = []"
    and "c \<noteq> pkgs ss"
  shows "\<exists>ss'. exec [Read (Binary (socketCmdIgnore # B)), FwdRecv i, WritePkgs ok] ss = Ok ss'
           \<and> pkgSubs ss' (EncodeToString B) = None
           \<and> c \<notin> set (dropBoxPubSub ss' (EncodeToString B))
           \<and> f_pc (forwarders ss' ! i) = Exited
           \<and> (\<exists>pch'. heap ss' (pkgs ss') = Some pch' \<and> chan_closed pch')
           \<and> \<not> writing ss'
           \<and> sent ss' = sent ss
           \<and> (\<forall>es ss''. exec es ss' = Ok ss'' \<longrightarrow> \<not> writing ss'' \<and> sent ss'' = sent ss)"
proof -
  let ?h = "EncodeToString B"
  let ?s1 = "ss\<lparr>heap := (heap ss)(c \<mapsto> ch\<lparr>chan_closed := True\<rparr>),
                  dropBoxPubSub := (dropBoxPubSub ss)(?h := removeAll c (dropBoxPubSub ss ?h)),
                  pkgSubs := (pkgSubs ss)(?h := None)\<rparr>"
  have 1: "step (Read (Binary (socketCmdIgnore # B))) ss = Ok ?s1"
    using ignore_watched [OF assms(1) assms(3) assms(4) assms(5)] .
  let ?s2 = "?s1\<lparr>heap := (heap ?s1)(pkgs ?s1 \<mapsto> pch\<lparr>chan_closed := True\<rparr>),
                  forwarders := set_pc i Exited (forwarders ?s1)\<rparr>"
  have 2: "step (FwdRecv i) ?s1 = Ok ?s2"
    by (rule forwarder_sees_nil [where ch = "ch\<lparr>chan_closed := True\<rparr>"])
       (use assms in simp_all)
  let ?s3 = "?s2\<lparr>writing := False\<rparr>"
  have 3: "step (WritePkgs ok) ?s2 = Ok ?s3"
    by (rule writer_sees_nil [where pch = "pch\<lparr>chan_closed := True\<rparr>"])
       (use assms in simp_all)
  have run: "exec [Read (Binary (socketCmdIgnore # B)), FwdRecv i, WritePkgs ok] ss = Ok ?s3"
    by (simp only: exec.simps 1 2 3 go.case)
  have gone: "\<not> writing ?s3" by simp
  have after: "\<forall>es ss''. exec es ?s3 = Ok ss'' \<longrightarrow> \<not> writing ss'' \<and> sent ss'' = sent ss"
    using exec_after_writer_gone [OF gone] by auto
  have pc: "f_pc (forwarders ?s3 ! i) = Exited"
    using assms(7) by (simp add: set_pc_def)
  show ?thesis
    apply (rule exI [where x = ?s3])
    using run after pc by simp
qed



lemma encode_box_a: "EncodeToString box_a = hex_a"
  by (simp add: box_a_def hex_a_def hextable_def)

lemma length_box_a: "length box_a = 16"
  by (simp add: box_a_def)

lemmas ss_defs = step_def readConn_def watchBox_def ignoreBox_def Let_def dropBoxIDSize_def
  socketCmdNop_def socketCmdWatch_def socketCmdIgnore_def kvs_PickUpPackage_def bucket_Get_def
  Sub_def Unsub_def Pub_def chan_send_def chan_recv_def chan_close_def
  forwarder_recv_def forwarder_send_def forwarder_closed_def
  writeConn_recv_def writeConn_closed_def set_pc_def
  ss0_def start_def newSocketServer_def empty_world_def encode_box_a length_box_a

lemmas pl_defs = pl_step_def pl_read_def pl_watch_def pl_ignore_def Let_def dropBoxIDSize_def
  clientCmdNop_def clientCmdWatch_def clientCmdIgnore_def pickUpPackage_def bucket_Get_def
  Sub_def Unsub_def Pub_def chan_send_def chan_recv_def chan_close_def
  pl_forwarder_recv_def pl_forwarder_send_def pl_forwarder_closed_def pl_forwarder_return_def
  pl_write_end_def pl_stop_wake_def pl_stop_finish_def set_pc_def
  pl0_def pl_start_def newPackageListener_def empty_world_def encode_box_a length_box_a

lemma ss_nop: "reading ss \<Longrightarrow> step (Read (Binary (socketCmdNop # rest))) ss = Ok ss"
  by (simp add: step_def readConn_def)

lemma ss_duplicate_watch:
  "reading ss \<Longrightarrow> pkgSubs ss (EncodeToString B) \<noteq> None \<Longrightarrow>
     step (Read (Binary (socketCmdWatch # B))) ss = Ok ss"
  by (auto simp: step_def readConn_def watchBox_def Let_def socketCmdNop_def socketCmdWatch_def)

lemma ss_ignore_unwatched:
  "reading ss \<Longrightarrow> pkgSubs ss (EncodeToString B) = None \<Longrightarrow>
     step (Read (Binary (socketCmdIgnore # B))) ss = Ok ss"
  by (simp add: step_def readConn_def ignoreBox_def Let_def
                socketCmdNop_def socketCmdWatch_def socketCmdIgnore_def)

lemma opcode_ge3: "(3 :: byte) \<le> c \<Longrightarrow> c \<noteq> 0 \<and> c \<noteq> 1 \<and> c \<noteq> 2"
  by (auto simp: word_le_nat_alt)

lemma ss_unknown_opcode:
  "reading ss \<Longrightarrow> 3 \<le> c \<Longrightarrow> step (Read (Binary (c # rest))) ss = Ok ss"
  using opcode_ge3 [of c]
  by (simp add: step_def readConn_def socketCmdNop_def socketCmdWatch_def socketCmdIgnore_def)

lemma pl_nop: "pl_reading pl \<Longrightarrow> pl_step (PlRead (Binary (clientCmdNop # rest))) pl = Ok pl"
  by (simp add: pl_step_def pl_read_def)

lemma pl_duplicate_watch:
  "pl_reading pl \<Longrightarrow> map_of (pl_subs pl) (EncodeToString B) \<noteq> None \<Longrightarrow>
     pl_step (PlRead (Binary (clientCmdWatch # B))) pl = Ok pl"
  by (auto simp: pl_step_def pl_read_def pl_watch_def Let_def clientCmdNop_def clientCmdWatch_def)

lemma pl_ignore_unwatched:
  "pl_reading pl \<Longrightarrow> map_of (pl_subs pl) (EncodeToString B) = None \<Longrightarrow>
     pl_step (PlRead (Binary (clientCmdIgnore # B))) pl = Ok pl"
  by (simp add: pl_step_def pl_read_def pl_ignore_def Let_def
                clientCmdNop_def clientCmdWatch_def clientCmdIgnore_def)

lemma pl_unknown_opcode:
  "pl_reading pl \<Longrightarrow> 3 \<le> c \<Longrightarrow> pl_step (PlRead (Binary (c # rest))) pl = Ok pl"
  using opcode_ge3 [of c]
  by (simp add: pl_step_def pl_read_def clientCmdNop_def clientCmdWatch_def clientCmdIgnore_def)

text \<open>
  C7: in both kinds of session, while the reader runs, a NOP frame, a WATCH for a box
  the session already watches, an IGNORE for a box it does not watch and a frame whose
  first byte is 3 or more leave the whole state of the session as it was: the
  subscription map, the bus and the goroutines are unchanged and the reader goes on to
  its next frame.
\<close>

theorem idle_frames_change_nothing:
  assumes "pl_reading pl" and "reading ss"
  shows "pl_step (PlRead (Binary (clientCmdNop # rest))) pl = Ok pl
       \<and> (map_of (pl_subs pl) (EncodeToString B) \<noteq> None \<longrightarrow>
            pl_step (PlRead (Binary (clientCmdWatch # B))) pl = Ok pl)
       \<and> (map_of (pl_subs pl) (EncodeToString B) = None \<longrightarrow>
            pl_step (PlRead (Binary (clientCmdIgnore # B))) pl = Ok pl)
       \<and> (3 \<le> c \<longrightarrow> pl_step (PlRead (Binary (c # rest))) pl = Ok pl)
       \<and> step (Read (Binary (socketCmdNop # rest))) ss = Ok ss
       \<and> (pkgSubs ss (EncodeToString B) \<noteq> None \<longrightarrow>
            step (Read (Binary (socketCmdWatch # B))) ss = Ok ss)
       \<and> (pkgSubs ss (EncodeToString B) = None \<longrightarrow>
            step (Read (Binary (socketCmdIgnore # B))) ss = Ok ss)
       \<and> (3 \<le> c \<longrightarrow> step (Read (Binary (c # rest))) ss = Ok ss)"
  using assms
  by (simp add: ss_nop ss_duplicate_watch ss_ignore_unwatched ss_unknown_opcode
                pl_nop pl_duplicate_watch pl_ignore_unwatched pl_unknown_opcode)

lemma ss_watching_facts:
  "reading ss_watching" "writing ss_watching" "pkgSubs ss_watching hex_a = Some 3"
  "dropBoxPubSub ss_watching hex_a = [3]"
  "heap ss_watching 3 = Some \<lparr>buf = [], cap = 5, chan_closed = False\<rparr>"
  "forwarders ss_watching =
     [\<lparr>f_hexID = hex_a, f_boxID = box_a, f_sub = 3, f_pc = AtSelect\<rparr>]"
  "pkgs ss_watching = 1"
  "heap ss_watching 1 = Some \<lparr>buf = [], cap = 5, chan_closed = False\<rparr>"
  "heap ss_watching (Suc 0) = Some \<lparr>buf = [], cap = 5, chan_closed = False\<rparr>"
  "sent ss_watching = []"
  by (simp_all add: ss_watching_def ss_defs del: EncodeToString.simps)

lemma pl_watching_facts:
  "pl_reading pl_watching"
  "map_of (pl_subs pl_watching) hex_a = Some \<lparr>sr_sub = 1, sr_closed = False\<rparr>"
  by (simp_all add: pl_watching_def pl_defs del: EncodeToString.simps)

theorem idle_frames_change_nothing_witness:
  "pl_step (PlRead (Binary [clientCmdNop])) pl_watching = Ok pl_watching
   \<and> pl_step (PlRead (Binary (clientCmdWatch # box_a))) pl_watching = Ok pl_watching
   \<and> pl_step (PlRead (Binary (clientCmdIgnore # box_a))) pl0 = Ok pl0
   \<and> pl_step (PlRead (Binary [9, 1, 2])) pl_watching = Ok pl_watching
   \<and> step (Read (Binary [socketCmdNop])) ss_watching = Ok ss_watching
   \<and> step (Read (Binary (socketCmdWatch # box_a))) ss_watching = Ok ss_watching
   \<and> step (Read (Binary (socketCmdIgnore # box_a))) ss0 = Ok ss0
   \<and> step (Read (Binary [9, 1, 2])) ss_watching = Ok ss_watching"
proof -
  have r: "pl_reading pl_watching" "reading ss_watching"
    by (simp_all add: pl_watching_facts ss_watching_facts)
  have r0: "pl_reading pl0" "reading ss0"
    by (simp_all add: pl_defs ss_defs)
  have w: "map_of (pl_subs pl_watching) (EncodeToString box_a) \<noteq> None"
          "pkgSubs ss_watching (EncodeToString box_a) \<noteq> None"
    by (simp_all add: encode_box_a pl_watching_facts ss_watching_facts)
  have u: "map_of (pl_subs pl0) (EncodeToString box_a) = None"
          "pkgSubs ss0 (EncodeToString box_a) = None"
    by (simp_all add: pl_defs ss_defs del: EncodeToString.simps)
  have c: "(3 :: byte) \<le> 9" by simp
  from idle_frames_change_nothing [OF r, where rest = "[]" and B = box_a and c = 9] w c
       idle_frames_change_nothing [OF r, where rest = "[1, 2]" and B = box_a and c = 9] c
       idle_frames_change_nothing [OF r0, where rest = "[]" and B = box_a and c = 9] u
  show ?thesis by simp
qed

theorem ignore_ends_all_writes_witness:
  "\<exists>ss'. exec [Read (Binary (socketCmdIgnore # box_a)), FwdRecv 0, WritePkgs True] ss_watching = Ok ss'
     \<and> pkgSubs ss' hex_a = None \<and> dropBoxPubSub ss' hex_a = []
     \<and> \<not> writing ss' \<and> sent ss' = []"
proof -
  have "\<exists>ss'. exec [Read (Binary (socketCmdIgnore # box_a)), FwdRecv 0, WritePkgs True] ss_watching = Ok ss'
           \<and> pkgSubs ss' (EncodeToString box_a) = None
           \<and> 3 \<notin> set (dropBoxPubSub ss' (EncodeToString box_a))
           \<and> f_pc (forwarders ss' ! 0) = Exited
           \<and> (\<exists>pch'. heap ss' (pkgs ss') = Some pch' \<and> chan_closed pch')
           \<and> \<not> writing ss'
           \<and> sent ss' = sent ss_watching
           \<and> (\<forall>es ss''. exec es ss' = Ok ss'' \<longrightarrow> \<not> writing ss'' \<and> sent ss'' = sent ss_watching)"
    by (rule ignore_ends_all_writes
          [where c = 3 and ch = "\<lparr>buf = [], cap = 5, chan_closed = False\<rparr>"
             and pch = "\<lparr>buf = [], cap = 5, chan_closed = False\<rparr>"])
       (simp_all add: ss_watching_facts encode_box_a)
  then obtain ss' where
    run: "exec [Read (Binary (socketCmdIgnore # box_a)), FwdRecv 0, WritePkgs True] ss_watching = Ok ss'"
    and a: "pkgSubs ss' hex_a = None" "\<not> writing ss'" "sent ss' = []"
    by (auto simp: encode_box_a ss_watching_facts)
  from run have "dropBoxPubSub ss' hex_a = []"
    by (auto simp: ss_watching_def ss_defs simp del: EncodeToString.simps)
  with run a show ?thesis by blast
qed




text \<open>
  Once the reader of a socketServer session has returned, no step of the session or of
  its surroundings takes a subscriber off either bus.
\<close>

lemma step_keeps_subscriptions:
  assumes "\<not> reading ss" and "step e ss = Ok ss'"
  shows "\<not> reading ss' \<and> dropBoxPubSub ss' = dropBoxPubSub ss
           \<and> messagesPubSub ss' = messagesPubSub ss"
proof (cases e)
  case (Read m)
  with assms show ?thesis by (simp add: step_def readConn_def)
next
  case (WriteMessages ok)
  with assms show ?thesis
    by (auto simp: step_def writeConn_recv_def split: if_splits go.splits prod.splits option.splits)
next
  case (WritePkgs ok)
  with assms show ?thesis
    by (auto simp: step_def writeConn_recv_def split: if_splits go.splits prod.splits option.splits)
next
  case WriterClosed
  with assms show ?thesis by (auto simp: step_def writeConn_closed_def split: if_splits)
next
  case (FwdClosed i)
  with assms show ?thesis by (auto simp: step_def forwarder_closed_def split: if_splits)
next
  case (FwdRecv i)
  with assms show ?thesis
    by (auto simp: step_def forwarder_recv_def split: if_splits go.splits prod.splits option.splits)
next
  case (FwdSend i)
  with assms show ?thesis
    by (auto simp: step_def forwarder_send_def split: if_splits go.splits fwd_pc.splits)
next
  case (PubBox pkg topic)
  with assms show ?thesis by (auto simp: step_def split: go.splits)
next
  case (PubUser msg uid)
  with assms show ?thesis by (auto simp: step_def split: go.splits)
next
  case (StorePut k v)
  with assms show ?thesis by (auto simp: step_def)
qed

lemma exec_keeps_subscriptions:
  "\<not> reading ss \<Longrightarrow> exec es ss = Ok ss' \<Longrightarrow>
     dropBoxPubSub ss' = dropBoxPubSub ss \<and> messagesPubSub ss' = messagesPubSub ss"
proof (induction es arbitrary: ss)
  case Nil
  then show ?case by simp
next
  case (Cons e es)
  from Cons.prems(2) obtain s1 where s1: "step e ss = Ok s1" and rest: "exec es s1 = Ok ss'"
    by (auto split: go.splits)
  from step_keeps_subscriptions [OF Cons.prems(1) s1] Cons.IH [OF _ rest] show ?case by simp
qed

text \<open>
  C2: a socketServer session watches a box, then its connection fails. The reader, the
  forwarder and the writer all return, but the box subscription and the user's
  message subscription stay on the buses with open queues: the next publication on
  the box is enqueued for the dead session, and the sixth one blocks its publisher. The
  same run of a packageListener session ends with the subscription removed and closed.
\<close>

theorem socket_close_keeps_subscriptions:
  "(case exec [Read (Binary (socketCmdWatch # box_a)), Read ReadError, FwdClosed 0, WriterClosed,
               PubBox [88] hex_a] ss0 of
      Ok s \<Rightarrow>
        \<not> reading s \<and> \<not> writing s \<and> closed s
        \<and> map f_pc (forwarders s) = [Exited]
        \<and> pkgSubs s hex_a = Some 3
        \<and> dropBoxPubSub s hex_a = [3]
        \<and> messagesPubSub s 7 = [2]
        \<and> map_option buf (heap s 3) = Some [[88]]
        \<and> map_option chan_closed (heap s 3) = Some False
        \<and> map_option chan_closed (heap s 2) = Some False
    | _ \<Rightarrow> False)
   \<and> exec [Read (Binary (socketCmdWatch # box_a)), Read ReadError, FwdClosed 0, WriterClosed,
           PubBox [88] hex_a, PubBox [88] hex_a, PubBox [88] hex_a, PubBox [88] hex_a,
           PubBox [88] hex_a, PubBox [88] hex_a] ss0 = Blocked
   \<and> (case pl_exec [PlRead (Binary (clientCmdWatch # box_a)), PlRead ReadError, PlFwdClosed 0,
                    PlStopWake, PlStopFinish, PlWriteEnd, PlPubBox [88] hex_a] pl0 of
        Ok s \<Rightarrow>
          \<not> pl_reading s \<and> \<not> pl_writing s \<and> pl_stopper s = Finished
          \<and> map f_pc (pl_forwarders s) = [Exited]
          \<and> dropBoxPubSub s hex_a = []
          \<and> map_option buf (heap s 1) = Some []
          \<and> map_option chan_closed (heap s 1) = Some True
      | _ \<Rightarrow> False)"
proof -
  have dead: "(case exec [Read (Binary (socketCmdWatch # box_a)), Read ReadError, FwdClosed 0,
                          WriterClosed, PubBox [88] hex_a] ss0 of
      Ok s \<Rightarrow>
        \<not> reading s \<and> \<not> writing s \<and> closed s
        \<and> map f_pc (forwarders s) = [Exited]
        \<and> pkgSubs s hex_a = Some 3
        \<and> dropBoxPubSub s hex_a = [3]
        \<and> messagesPubSub s 7 = [2]
        \<and> map_option buf (heap s 3) = Some [[88]]
        \<and> map_option chan_closed (heap s 3) = Some False
        \<and> map_option chan_closed (heap s 2) = Some False
    | _ \<Rightarrow> False)"
    by (simp add: ss_defs del: EncodeToString.simps)
  have full: "exec [Read (Binary (socketCmdWatch # box_a)), Read ReadError, FwdClosed 0, WriterClosed,
           PubBox [88] hex_a, PubBox [88] hex_a, PubBox [88] hex_a, PubBox [88] hex_a,
           PubBox [88] hex_a, PubBox [88] hex_a] ss0 = Blocked"
    by (simp add: ss_defs del: EncodeToString.simps)
  have sibling: "(case pl_exec [PlRead (Binary (clientCmdWatch # box_a)), PlRead ReadError,
                    PlFwdClosed 0, PlStopWake, PlStopFinish, PlWriteEnd, PlPubBox [88] hex_a] pl0 of
        Ok s \<Rightarrow>
          \<not> pl_reading s \<and> \<not> pl_writing s \<and> pl_stopper s = Finished
          \<and> map f_pc (pl_forwarders s) = [Exited]
          \<and> dropBoxPubSub s hex_a = []
          \<and> map_option buf (heap s 1) = Some []
          \<and> map_option chan_closed (heap s 1) = Some True
      | _ \<Rightarrow> False)"
    by (simp add: pl_defs del: EncodeToString.simps)
  from dead full sibling show ?thesis by blast
qed

end
